theory Spec2Isabelle
  imports Main "HOL-Library.Word" "HOL-Library.Sublist" "HOL-Library.Multiset" "HOL-Library.AList"
begin

unbundle bit_operations_syntax

section \<open>Paths\<close>

text \<open>
  The source manipulates paths with Go's \<^verbatim>\<open>path/filepath\<close> (Unix flavour). The three
  functions it calls are modelled on byte strings after the rules of the package
  documentation: \<^verbatim>\<open>Clean\<close> collapses separators, drops \<^verbatim>\<open>.\<close> elements, cancels an inner
  \<^verbatim>\<open>..\<close> against the element before it, drops \<^verbatim>\<open>..\<close> at the start of a rooted path and
  returns \<^verbatim>\<open>.\<close> for an empty result; \<^verbatim>\<open>Dir\<close> cleans everything up to the last separator;
  \<^verbatim>\<open>Join\<close> ignores empty elements and cleans the rest joined by separators.
\<close>

primrec splitSep :: "string \<Rightarrow> string list" where
  "splitSep [] = [[]]"
| "splitSep (c # cs) =
     (if c = CHR ''/'' then [] # splitSep cs
      else (case splitSep cs of [] \<Rightarrow> [[c]] | x # xs \<Rightarrow> (c # x) # xs))"

primrec joinSep :: "string list \<Rightarrow> string" where
  "joinSep [] = []"
| "joinSep (x # xs) = (if xs = [] then x else x @ ''/'' @ joinSep xs)"

text \<open>One element of the path against the elements kept so far (last kept first).\<close>

definition clean_step :: "bool \<Rightarrow> string list \<Rightarrow> string \<Rightarrow> string list" where
  "clean_step rooted kept el =
     (if el = [] \<or> el = ''.'' then kept
      else if el = ''..'' then
        (case kept of
           [] \<Rightarrow> if rooted then [] else [''..'']
         | t # ts \<Rightarrow> if t = ''..'' then ''..'' # t # ts else ts)
      else el # kept)"

definition filepath_Clean :: "string \<Rightarrow> string" where
  "filepath_Clean path =
     (let rooted = (take 1 path = ''/'');
          kept = rev (foldl (clean_step rooted) [] (splitSep path));
          out = (if rooted then ''/'' else []) @ joinSep kept
      in if out = [] then ''.'' else out)"

definition filepath_Dir :: "string \<Rightarrow> string" where
  "filepath_Dir path = filepath_Clean (rev (dropWhile (\<lambda>c. c \<noteq> CHR ''/'') (rev path)))"

definition filepath_Join :: "string list \<Rightarrow> string" where
  "filepath_Join elem =
     (case dropWhile (\<lambda>e. e = []) elem of
        [] \<Rightarrow> []
      | es \<Rightarrow> filepath_Clean (joinSep es))"

section \<open>Files and the operating system\<close>

text \<open>
  Bytes are \<^typ>\<open>char\<close> (eight bits), so a \<^verbatim>\<open>[]byte\<close> is a \<^typ>\<open>string\<close>. A regular file
  has a content, a mode (Go's \<^verbatim>\<open>os.FileMode\<close>, 32 bits) and a modification time. The
  file system maps paths to files; its clock gives every data modification a fresh
  time stamp, and its trace records each modifying system call in order.
\<close>

datatype os_error = ENOENT | EACCES | EIO | ENOSPC | ENOTDIR | EBADF

text \<open>\<^verbatim>\<open>errors.Is(err, fs.ErrNotExist)\<close> on an error of the operating system.\<close>

definition is_ErrNotExist :: "os_error \<Rightarrow> bool" where
  "is_ErrNotExist e = (e = ENOENT)"

datatype read_error = EOF | ReadErr os_error

type_synonym FileMode = "32 word"

record regfile =
  content :: string
  fmode :: FileMode
  mtime :: nat

datatype event =
    EvCreate string FileMode
  | EvMkdirAll string FileMode
  | EvWriteFile string string
  | EvChmod string FileMode
  | EvTruncate string nat
  | EvWriteAt string nat string

record fsys =
  files :: "string \<rightharpoonup> regfile"
  clock :: nat
  trace :: "event list"

text \<open>
  What the operating system answers beyond the modelled files: the error, if any, of each
  fallible call the source makes. \<open>read_err k\<close> is the error of reading the byte at offset
  \<open>k\<close>; \<open>writeat_err\<close> carries the number of bytes that were written before the error.
  \<open>mode_after_write\<close> is the mode that a written or truncated file is left with: POSIX
  lets the system clear the set-user-ID and set-group-ID bits then, and Linux does so for
  a process without the privilege to keep them.
\<close>

record os_env =
  open_err :: "os_error option"
  mkdir_err :: "os_error option"
  writefile_err :: "os_error option"
  stat_err :: "os_error option"
  chmod_err :: "os_error option"
  read_err :: "nat \<Rightarrow> os_error option"
  truncate_err :: "os_error option"
  writeat_err :: "(nat \<times> os_error) option"
  umask :: FileMode
  mode_after_write :: "FileMode \<Rightarrow> FileMode"

text \<open>\<^verbatim>\<open>FileMode.Perm()\<close>: the permission bits, \<^verbatim>\<open>0o777\<close>.\<close>

definition Perm :: "FileMode \<Rightarrow> FileMode" where
  "Perm m = m AND 0x1FF"

text \<open>
  The bits of a \<^verbatim>\<open>FileMode\<close> that reach the file through \<^verbatim>\<open>open\<close> and \<^verbatim>\<open>chmod\<close>: the
  permissions, \<^verbatim>\<open>ModeSetuid\<close>, \<^verbatim>\<open>ModeSetgid\<close> and \<^verbatim>\<open>ModeSticky\<close>.
\<close>

definition syscallMode :: "FileMode \<Rightarrow> FileMode" where
  "syscallMode m = m AND (0x1FF OR push_bit 23 1 OR push_bit 22 1 OR push_bit 20 1)"

text \<open>
  A successful write to an existing file: the content changes, the mode is what the
  system leaves on a written file, the modification time is a fresh time stamp.
\<close>

definition touch :: "os_env \<Rightarrow> string \<Rightarrow> (string \<Rightarrow> string) \<Rightarrow> event \<Rightarrow> fsys \<Rightarrow> fsys" where
  "touch env path upd ev fs =
     (case files fs path of
        None \<Rightarrow> fs
      | Some f \<Rightarrow>
          fs\<lparr>files := (files fs)(path \<mapsto>
                 \<lparr>content = upd (content f), fmode = mode_after_write env (fmode f),
                  mtime = Suc (clock fs)\<rparr>),
             clock := Suc (clock fs),
             trace := trace fs @ [ev]\<rparr>)"

text \<open>
  \<^verbatim>\<open>os.OpenFile(path, O_RDWR|O_CREATE, perm)\<close>: an existing file is opened as it is, a
  missing one is created empty.
\<close>

definition OpenFile :: "os_env \<Rightarrow> string \<Rightarrow> FileMode \<Rightarrow> fsys \<Rightarrow> os_error option \<times> fsys" where
  "OpenFile env path perm fs =
     (case open_err env of
        Some e \<Rightarrow> (Some e, fs)
      | None \<Rightarrow>
          (case files fs path of
             Some f \<Rightarrow> (None, fs)
           | None \<Rightarrow>
               (None,
                fs\<lparr>files := (files fs)(path \<mapsto>
                       \<lparr>content = [], fmode = syscallMode perm AND NOT (umask env),
                        mtime = Suc (clock fs)\<rparr>),
                   clock := Suc (clock fs),
                   trace := trace fs @ [EvCreate path perm]\<rparr>)))"

definition MkdirAll :: "os_env \<Rightarrow> string \<Rightarrow> FileMode \<Rightarrow> fsys \<Rightarrow> os_error option \<times> fsys" where
  "MkdirAll env path perm fs =
     (case mkdir_err env of
        Some e \<Rightarrow> (Some e, fs)
      | None \<Rightarrow> (None, fs\<lparr>trace := trace fs @ [EvMkdirAll path perm]\<rparr>))"

text \<open>
  \<^verbatim>\<open>os.WriteFile\<close>: create or truncate, then write. A failing call is modelled as failing
  at its open, before anything is written.
\<close>

definition WriteFile :: "os_env \<Rightarrow> string \<Rightarrow> string \<Rightarrow> FileMode \<Rightarrow> fsys \<Rightarrow> os_error option \<times> fsys" where
  "WriteFile env path data perm fs =
     (case writefile_err env of
        Some e \<Rightarrow> (Some e, fs)
      | None \<Rightarrow>
          (None,
           fs\<lparr>files := (files fs)(path \<mapsto>
                  \<lparr>content = data,
                   fmode = (case files fs path of
                              None \<Rightarrow> syscallMode perm AND NOT (umask env)
                            | Some f \<Rightarrow> mode_after_write env (fmode f)),
                   mtime = Suc (clock fs)\<rparr>),
              clock := Suc (clock fs),
              trace := trace fs @ [EvWriteFile path data]\<rparr>))"

text \<open>\<^verbatim>\<open>file.Stat()\<close>: the mode and the size of the open file.\<close>

definition Stat :: "os_env \<Rightarrow> string \<Rightarrow> fsys \<Rightarrow> os_error + (FileMode \<times> nat)" where
  "Stat env path fs =
     (case stat_err env of
        Some e \<Rightarrow> Inl e
      | None \<Rightarrow>
          (case files fs path of
             None \<Rightarrow> Inl EBADF
           | Some f \<Rightarrow> Inr (fmode f, length (content f))))"

text \<open>\<^verbatim>\<open>file.Chmod(perm)\<close> changes the mode and leaves content and modification time.\<close>

definition Chmod :: "os_env \<Rightarrow> string \<Rightarrow> FileMode \<Rightarrow> fsys \<Rightarrow> os_error option \<times> fsys" where
  "Chmod env path perm fs =
     (case chmod_err env of
        Some e \<Rightarrow> (Some e, fs)
      | None \<Rightarrow>
          (case files fs path of
             None \<Rightarrow> (Some EBADF, fs)
           | Some f \<Rightarrow>
               (None,
                fs\<lparr>files := (files fs)(path \<mapsto> f\<lparr>fmode := syscallMode perm\<rparr>),
                   trace := trace fs @ [EvChmod path perm]\<rparr>)))"

text \<open>
  \<^verbatim>\<open>r.ReadByte()\<close> for the byte at offset \<open>k\<close> of a reader that started at offset 0: an
  error of the operating system, \<^verbatim>\<open>io.EOF\<close> past the end, or the byte.
\<close>

definition ReadByte :: "os_env \<Rightarrow> string \<Rightarrow> nat \<Rightarrow> read_error + char" where
  "ReadByte env cont k =
     (case read_err env k of
        Some e \<Rightarrow> Inl (ReadErr e)
      | None \<Rightarrow> if k < length cont then Inr (cont ! k) else Inl EOF)"

text \<open>\<^verbatim>\<open>f.Truncate(n)\<close>: cut, or extend with zero bytes, to \<open>n\<close> bytes.\<close>

definition resize :: "nat \<Rightarrow> string \<Rightarrow> string" where
  "resize n cont = take n cont @ replicate (n - length cont) (CHR 0x00)"

definition Truncate :: "os_env \<Rightarrow> string \<Rightarrow> nat \<Rightarrow> fsys \<Rightarrow> os_error option \<times> fsys" where
  "Truncate env path n fs =
     (case truncate_err env of
        Some e \<Rightarrow> (Some e, fs)
      | None \<Rightarrow>
          (case files fs path of
             None \<Rightarrow> (Some EBADF, fs)
           | Some f \<Rightarrow>
               (None, touch env path (resize n) (EvTruncate path n) fs)))"

text \<open>
  \<^verbatim>\<open>f.WriteAt(b, off)\<close>: no system call for an empty \<open>b\<close>; otherwise the bytes replace the
  content from \<open>off\<close> on, after a gap of zero bytes when \<open>off\<close> is past the end. A failing
  call has written the first \<open>n\<close> bytes.
\<close>

definition write_bytes :: "string \<Rightarrow> nat \<Rightarrow> string \<Rightarrow> string" where
  "write_bytes cont off b =
     (let padded = cont @ replicate (off - length cont) (CHR 0x00)
      in take off padded @ b @ drop (off + length b) padded)"

definition WriteAt :: "os_env \<Rightarrow> string \<Rightarrow> string \<Rightarrow> nat \<Rightarrow> fsys \<Rightarrow> os_error option \<times> fsys" where
  "WriteAt env path b off fs =
     (if b = [] then (None, fs)
      else
        (case files fs path of
           None \<Rightarrow> (Some EBADF, fs)
         | Some f \<Rightarrow>
             (case writeat_err env of
                None \<Rightarrow>
                  (None, touch env path (\<lambda>cont. write_bytes cont off b) (EvWriteAt path off b) fs)
              | Some (n, e) \<Rightarrow>
                  (Some e,
                   if n = 0 then fs
                   else touch env path (\<lambda>cont. write_bytes cont off (take n b))
                          (EvWriteAt path off (take n b)) fs))))"

section \<open>The file synchronizer\<close>

text \<open>
  \<^verbatim>\<open>overwriteFile\<close> truncates the file to the length of the data and writes the data
  from the offset on, at the same offset.
\<close>

definition overwriteFile :: "os_env \<Rightarrow> string \<Rightarrow> string \<Rightarrow> nat \<Rightarrow> fsys \<Rightarrow> os_error option \<times> fsys" where
  "overwriteFile env f data offset fs =
     (case Truncate env f (length data) fs of
        (Some err, fs') \<Rightarrow> (Some err, fs')
      | (None, fs') \<Rightarrow> WriteAt env f (drop offset data) offset fs')"

text \<open>
  The loop of \<^verbatim>\<open>overwriteFileIfChanged\<close>: the first offset of the data, from \<open>offset\<close>
  on, at which the read fails or gives another byte; \<open>None\<close> when the loop runs to its end.
\<close>

primrec scan :: "os_env \<Rightarrow> string \<Rightarrow> nat \<Rightarrow> string \<Rightarrow> nat option" where
  "scan env cont offset [] = None"
| "scan env cont offset (d # ds) =
     (case ReadByte env cont offset of
        Inl err \<Rightarrow> Some offset
      | Inr b \<Rightarrow> if b \<noteq> d then Some offset else scan env cont (Suc offset) ds)"

definition overwriteFileIfChanged ::
  "os_env \<Rightarrow> string \<Rightarrow> string \<Rightarrow> FileMode \<Rightarrow> fsys \<Rightarrow> os_error option \<times> fsys" where
  "overwriteFileIfChanged env path data perm fs =
     (case OpenFile env path perm fs of
        (Some err, fs0) \<Rightarrow>
          if is_ErrNotExist err then
            (case MkdirAll env (filepath_Dir path) 0x1C0 fs0 of
               (Some err', fs1) \<Rightarrow> (Some err', fs1)
             | (None, fs1) \<Rightarrow> WriteFile env path data perm fs1)
          else (Some err, fs0)
      | (None, fs0) \<Rightarrow>
          (let st = Stat env path fs0 in
           (case (if (case st of Inl err \<Rightarrow> True | Inr (m, sz) \<Rightarrow> Perm m \<noteq> perm)
                  then Chmod env path perm fs0 else (None, fs0)) of
              (Some err, fs1) \<Rightarrow> (Some err, fs1)
            | (None, fs1) \<Rightarrow>
                if (case st of Inl err \<Rightarrow> False | Inr (m, sz) \<Rightarrow> sz \<noteq> length data)
                then overwriteFile env path data 0 fs1
                else
                  (case scan env (case files fs1 path of None \<Rightarrow> [] | Some f \<Rightarrow> content f) 0 data of
                     Some offset \<Rightarrow> overwriteFile env path data offset fs1
                   | None \<Rightarrow> (None, fs1)))))"


text \<open>
  Vocabulary for the properties of the synchronizer. The events of the trace other than
  permission changes are the writes. A file is untouched between two states when its
  content and modification time are the same, the clock has not moved and no write was
  traced. The next two predicates follow the specification's words: the data reads back
  from a content when every byte of the data is read without error and equal;
  \<open>first_mismatch\<close> is the first offset of the data at which the read fails or the byte
  read differs.
\<close>

primrec is_chmod :: "event \<Rightarrow> bool" where
  "is_chmod (EvCreate p m) = False"
| "is_chmod (EvMkdirAll p m) = False"
| "is_chmod (EvWriteFile p d) = False"
| "is_chmod (EvChmod p m) = True"
| "is_chmod (EvTruncate p n) = False"
| "is_chmod (EvWriteAt p k d) = False"

definition writes :: "fsys \<Rightarrow> event list" where
  "writes fs = filter (\<lambda>ev. \<not> is_chmod ev) (trace fs)"

definition untouched :: "string \<Rightarrow> regfile \<Rightarrow> fsys \<Rightarrow> fsys \<Rightarrow> bool" where
  "untouched path f fs fs' \<longleftrightarrow>
     map_option content (files fs' path) = Some (content f) \<and>
     map_option mtime (files fs' path) = Some (mtime f) \<and>
     clock fs' = clock fs \<and> writes fs' = writes fs"

definition reads_back :: "os_env \<Rightarrow> string \<Rightarrow> string \<Rightarrow> bool" where
  "reads_back env cont data \<longleftrightarrow> (\<forall>k<length data. ReadByte env cont k = Inr (data ! k))"

definition first_mismatch :: "os_env \<Rightarrow> string \<Rightarrow> string \<Rightarrow> nat \<Rightarrow> bool" where
  "first_mismatch env cont data k \<longleftrightarrow>
     k < length data \<and> ReadByte env cont k \<noteq> Inr (data ! k) \<and>
     (\<forall>j<k. ReadByte env cont j = Inr (data ! j))"

text \<open>
  The permission step of \<^verbatim>\<open>overwriteFileIfChanged\<close> on the open file \<open>f\<close>: \<open>Chmod\<close> is
  called when \<open>Stat\<close> failed or the permission bits differ.
\<close>

definition permission_step ::
  "os_env \<Rightarrow> string \<Rightarrow> FileMode \<Rightarrow> regfile \<Rightarrow> fsys \<Rightarrow> os_error option \<times> fsys" where
  "permission_step env path perm f fs =
     (if stat_err env \<noteq> None \<or> Perm (fmode f) \<noteq> perm then Chmod env path perm fs
      else (None, fs))"

text \<open>
  Concrete inputs: an operating system on which every call succeeds and a write clears
  the set-user-ID and set-group-ID bits, one on which only \<open>Stat\<close> fails, one on which
  only the read of the byte at offset 2 fails, and a file system holding one file.
\<close>

definition env_ok :: os_env where
  "env_ok = \<lparr>open_err = None, mkdir_err = None, writefile_err = None, stat_err = None,
             chmod_err = None, read_err = (\<lambda>k. None), truncate_err = None,
             writeat_err = None, umask = 0x12,
             mode_after_write = (\<lambda>m. m AND NOT (push_bit 23 1 OR push_bit 22 1))\<rparr>"

definition env_stat_fails :: os_env where
  "env_stat_fails = env_ok\<lparr>stat_err := Some EIO\<rparr>"

definition env_read_fails :: os_env where
  "env_read_fails = env_ok\<lparr>read_err := (\<lambda>k. if k = 2 then Some EIO else None)\<rparr>"

definition fs_one :: "string \<Rightarrow> string \<Rightarrow> FileMode \<Rightarrow> fsys" where
  "fs_one path cont m =
     \<lparr>files = [path \<mapsto> \<lparr>content = cont, fmode = m, mtime = 7\<rparr>], clock = 9, trace = []\<rparr>"

section \<open>JSON texts and their decoding\<close>

text \<open>
  The manifest is decoded with Go's \<^verbatim>\<open>encoding/json\<close>. A JSON text is modelled by its
  value; of a number only what the decoding into an \<^verbatim>\<open>int\<close> looks at is kept: the integer
  it denotes when the literal has neither fraction nor exponent.
\<close>

datatype jnumber = IntLit int | NonIntLit

datatype json =
    JNull
  | JBool bool
  | JNumber jnumber
  | JString string
  | JArray "json list"
  | JObject "(string \<times> json) list"

datatype json_error = SyntaxError | UnmarshalTypeError

text \<open>Go's \<^verbatim>\<open>int\<close> on the 64-bit platforms, two's complement.\<close>

type_synonym int64 = "64 word"

text \<open>
  The key of an object member selects a struct field when it equals the field's name or
  differs from it in case only. The package folds both names: ASCII letters to upper case,
  and the two letters outside ASCII that fold to an ASCII letter, U+017F to \<^verbatim>\<open>S\<close> and
  U+212A to \<^verbatim>\<open>K\<close> (given by their UTF-8 bytes). Other bytes stay as they are, which
  decides the comparison with the ASCII names of the fields used here.
\<close>

definition asciiUpper :: "char \<Rightarrow> char" where
  "asciiUpper c =
     (case map_of (zip ''abcdefghijklmnopqrstuvwxyz'' ''ABCDEFGHIJKLMNOPQRSTUVWXYZ'') c of
        None \<Rightarrow> c
      | Some u \<Rightarrow> u)"

function foldName :: "string \<Rightarrow> string" where
  "foldName cs =
     (if take 3 cs = [CHR 0xE2, CHR 0x84, CHR 0xAA] then CHR ''K'' # foldName (drop 3 cs)
      else if take 2 cs = [CHR 0xC5, CHR 0xBF] then CHR ''S'' # foldName (drop 2 cs)
      else (case cs of [] \<Rightarrow> [] | c # cs' \<Rightarrow> asciiUpper c # foldName cs'))"
  by pat_completeness auto
termination
proof (relation "measure length")
  show "wf (measure length)" by simp
next
  fix cs :: string
  assume "take 3 cs = [CHR 0xE2, CHR 0x84, CHR 0xAA]"
  then have "cs \<noteq> []" by auto
  then show "(drop 3 cs, cs) \<in> measure length" by simp
next
  fix cs :: string
  assume "take 2 cs = [CHR 0xC5, CHR 0xBF]"
  then have "cs \<noteq> []" by auto
  then show "(drop 2 cs, cs) \<in> measure length" by simp
next
  fix cs cs' :: string and c :: char
  assume "cs = c # cs'"
  then show "(cs', cs) \<in> measure length" by simp
qed

definition match_field :: "string \<Rightarrow> string \<Rightarrow> bool" where
  "match_field name key \<longleftrightarrow> key = name \<or> foldName key = foldName name"

text \<open>
  Decoding into an \<^verbatim>\<open>int\<close>: \<^verbatim>\<open>null\<close> leaves the value; an integer literal in range is
  stored; everything else is an \<^verbatim>\<open>UnmarshalTypeError\<close>.
\<close>

definition decode_int :: "int64 \<Rightarrow> json \<Rightarrow> json_error + int64" where
  "decode_int cur v =
     (case v of
        JNull \<Rightarrow> Inr cur
      | JNumber (IntLit n) \<Rightarrow>
          if - (2 ^ 63) \<le> n \<and> n < 2 ^ 63 then Inr (word_of_int n) else Inl UnmarshalTypeError
      | _ \<Rightarrow> Inl UnmarshalTypeError)"

text \<open>
  Decoding into a struct with one tagged field: \<^verbatim>\<open>null\<close> leaves the struct; the members
  of an object are taken in order, each member whose key selects the field is decoded
  into the field's current value, every other member is skipped; a value of another kind
  is an \<^verbatim>\<open>UnmarshalTypeError\<close>. (The package goes on after a type error and reports the
  first one at the end; the callers here use the result only when there is no error.)
\<close>

primrec decode_fields ::
  "string \<Rightarrow> ('a \<Rightarrow> json \<Rightarrow> json_error + 'a) \<Rightarrow> 'a \<Rightarrow> (string \<times> json) list \<Rightarrow> json_error + 'a" where
  "decode_fields name dec cur [] = Inr cur"
| "decode_fields name dec cur (kv # kvs) =
     (if match_field name (fst kv) then
        (case dec cur (snd kv) of
           Inl err \<Rightarrow> Inl err
         | Inr x \<Rightarrow> decode_fields name dec x kvs)
      else decode_fields name dec cur kvs)"

definition decode_struct ::
  "string \<Rightarrow> ('a \<Rightarrow> json \<Rightarrow> json_error + 'a) \<Rightarrow> 'a \<Rightarrow> json \<Rightarrow> json_error + 'a" where
  "decode_struct name dec cur v =
     (case v of
        JNull \<Rightarrow> Inr cur
      | JObject kvs \<Rightarrow> decode_fields name dec cur kvs
      | _ \<Rightarrow> Inl UnmarshalTypeError)"

text \<open>The element struct \<^verbatim>\<open>struct { Priority int `json:"priority"` }\<close>.\<close>

record element =
  Priority :: int64

definition decode_element :: "element \<Rightarrow> json \<Rightarrow> json_error + element" where
  "decode_element =
     decode_struct ''priority''
       (\<lambda>cur v. case decode_int (Priority cur) v of
                   Inl err \<Rightarrow> Inl err
                 | Inr p \<Rightarrow> Inr (cur\<lparr>Priority := p\<rparr>))"

text \<open>
  Decoding into a \<^verbatim>\<open>map[string]struct\<close>, held as an association list with distinct keys:
  \<^verbatim>\<open>null\<close> makes the map nil; an object keeps the existing entries and stores each member,
  decoded into a fresh zero element, under its key; anything else is an
  \<^verbatim>\<open>UnmarshalTypeError\<close>.
\<close>

primrec decode_entries ::
  "(string \<times> element) list \<Rightarrow> (string \<times> json) list \<Rightarrow> json_error + (string \<times> element) list" where
  "decode_entries m [] = Inr m"
| "decode_entries m (kv # kvs) =
     (case decode_element \<lparr>Priority = 0\<rparr> (snd kv) of
        Inl err \<Rightarrow> Inl err
      | Inr el \<Rightarrow> decode_entries (AList.update (fst kv) el m) kvs)"

definition decode_map ::
  "(string \<times> element) list \<Rightarrow> json \<Rightarrow> json_error + (string \<times> element) list" where
  "decode_map cur v =
     (case v of
        JNull \<Rightarrow> Inr []
      | JObject kvs \<Rightarrow> decode_entries cur kvs
      | _ \<Rightarrow> Inl UnmarshalTypeError)"

text \<open>
  Decoding into a \<^verbatim>\<open>[]struct\<close>. A slice is modelled by its elements together with the
  elements that its backing array holds behind them, left there by an earlier and longer
  decode (everywhere else a backing array holds zero elements, also after it has grown).
  \<^verbatim>\<open>null\<close> makes the slice nil and an empty array makes it a fresh empty slice. Of any
  other array the \<open>i\<close>-th value is decoded into the \<open>i\<close>-th element of the backing array
  as it is, so that an element decoded before keeps what the new value does not set, and
  the slice is cut to the length of the array. Anything else is an
  \<^verbatim>\<open>UnmarshalTypeError\<close>.
\<close>

type_synonym slice = "element list \<times> element list"

primrec decode_items :: "element list \<Rightarrow> json list \<Rightarrow> json_error + element list" where
  "decode_items backing [] = Inr []"
| "decode_items backing (v # vs) =
     (case decode_element (case backing of [] \<Rightarrow> \<lparr>Priority = 0\<rparr> | e # es \<Rightarrow> e) v of
        Inl err \<Rightarrow> Inl err
      | Inr el \<Rightarrow>
          (case decode_items (tl backing) vs of
             Inl err \<Rightarrow> Inl err
           | Inr els \<Rightarrow> Inr (el # els)))"

definition decode_slice :: "slice \<Rightarrow> json \<Rightarrow> json_error + slice" where
  "decode_slice cur v =
     (case v of
        JNull \<Rightarrow> Inr ([], [])
      | JArray vs \<Rightarrow>
          if vs = [] then Inr ([], [])
          else
            (case decode_items (fst cur @ snd cur) vs of
               Inl err \<Rightarrow> Inl err
             | Inr els \<Rightarrow> Inr (els, drop (length vs) (fst cur @ snd cur)))
      | _ \<Rightarrow> Inl UnmarshalTypeError)"

text \<open>
  \<^verbatim>\<open>json.Unmarshal(data, &modernMani)\<close> and \<^verbatim>\<open>json.Unmarshal(data, &legacyMani)\<close>, both
  into a zero struct whose one field is tagged \<^verbatim>\<open>elements\<close>. The data is \<open>None\<close> when the
  bytes are not a JSON text: both calls then return a \<^verbatim>\<open>SyntaxError\<close>.
\<close>

definition Unmarshal_modern :: "json option \<Rightarrow> json_error + (string \<times> element) list" where
  "Unmarshal_modern data =
     (case data of
        None \<Rightarrow> Inl SyntaxError
      | Some v \<Rightarrow> decode_struct ''elements'' decode_map [] v)"

definition Unmarshal_legacy :: "json option \<Rightarrow> json_error + element list" where
  "Unmarshal_legacy data =
     (case data of
        None \<Rightarrow> Inl SyntaxError
      | Some v \<Rightarrow>
          (case decode_struct ''elements'' decode_slice ([], []) v of
             Inl err \<Rightarrow> Inl err
           | Inr sl \<Rightarrow> Inr (fst sl)))"

section \<open>Profiles: manifest, priority, install\<close>

text \<open>
  Go errors, as far as the source tells them apart: an error of the operating system, of
  the JSON decoder, of \<^verbatim>\<open>usererr.New\<close> with its text, the exit status of a command, an error
  text of the template engine, \<^verbatim>\<open>redact.Errorf\<close> with its format, its other arguments and
  the error it wraps, and \<^verbatim>\<open>errors.WithStack\<close>.
\<close>

datatype go_error =
    OsError os_error
  | JsonError json_error
  | UserError string
  | ExitError nat
  | TemplateError string
  | Errorf string "string list" go_error
  | WithStack go_error

text \<open>
  What the functions of package \<^verbatim>\<open>nix\<close> get from outside the source file:
  \<^item> \<open>ReadFile\<close>: \<^verbatim>\<open>os.ReadFile\<close>, the error or the bytes read, the bytes given as the JSON
    text they hold (\<open>None\<close> when they are not a JSON text);
  \<^item> \<open>range_order\<close>: the order in which a \<^verbatim>\<open>range\<close> over a map visits its entries, which
    the Go runtime leaves unspecified;
  \<^item> \<open>IsInsecureAllowed\<close>, \<open>PackageIsInsecure\<close>, \<open>PackageKnownVulnerabilities\<close>: the
    vulnerability lookup, functions of the package that are declared in its other files;
  \<^item> \<open>Run\<close>: \<^verbatim>\<open>cmd.Run()\<close> on the \<^verbatim>\<open>nix\<close> command with the given arguments, the exit status
    when the process fails.
\<close>

record nix_env =
  ReadFile :: "string \<Rightarrow> os_error + json option"
  range_order :: "(string \<times> element) list \<Rightarrow> (string \<times> element) list"
  IsInsecureAllowed :: bool
  PackageIsInsecure :: "string \<Rightarrow> bool"
  PackageKnownVulnerabilities :: "string \<Rightarrow> string list"
  Run :: "string list \<Rightarrow> nat option"

record manifest =
  Elements :: "element list"

text \<open>\<^verbatim>\<open>readManifest\<close> returns a manifest and an error, as the Go function does.\<close>

definition readManifest :: "nix_env \<Rightarrow> string \<Rightarrow> manifest \<times> go_error option" where
  "readManifest env profilePath =
     (case ReadFile env (filepath_Join [profilePath, ''manifest.json'']) of
        Inl err \<Rightarrow>
          if is_ErrNotExist err then (\<lparr>Elements = []\<rparr>, None)
          else (\<lparr>Elements = []\<rparr>, Some (OsError err))
      | Inr data \<Rightarrow>
          (case Unmarshal_modern data of
             Inr modernMani \<Rightarrow>
               (\<lparr>Elements = map (\<lambda>(k, e). \<lparr>Priority = Priority e\<rparr>) (range_order env modernMani)\<rparr>,
                None)
           | Inl err0 \<Rightarrow>
               (case Unmarshal_legacy data of
                  Inl err \<Rightarrow> (\<lparr>Elements = []\<rparr>, Some (JsonError err))
                | Inr legacyMani \<Rightarrow>
                    (\<lparr>Elements = map (\<lambda>e. \<lparr>Priority = Priority e\<rparr>) legacyMani\<rparr>, None))))"

text \<open>\<^verbatim>\<open>fmt.Sprintf("%d", n)\<close>: the decimal digits, after a minus sign for a negative number.\<close>

definition digit_char :: "nat \<Rightarrow> char" where
  "digit_char d = ''0123456789'' ! d"

fun digits :: "nat \<Rightarrow> string" where
  "digits n = (if n < 10 then [digit_char n] else digits (n div 10) @ [digit_char (n mod 10)])"

definition fmt_d :: "int \<Rightarrow> string" where
  "fmt_d i = (if i < 0 then CHR ''-'' # digits (nat (- i)) else digits (nat i))"

definition DefaultPriority :: int64 where
  "DefaultPriority = 5"

text \<open>The loop of \<^verbatim>\<open>nextPriority\<close>: the running maximum, compared as signed integers.\<close>

primrec max_loop :: "int64 \<Rightarrow> element list \<Rightarrow> int64" where
  "max_loop mx [] = mx"
| "max_loop mx (e # es) = max_loop (if sint (Priority e) > sint mx then Priority e else mx) es"

definition nextPriority :: "nix_env \<Rightarrow> string \<Rightarrow> string" where
  "nextPriority env profilePath =
     (let m = fst (readManifest env profilePath);
          mx = max_loop DefaultPriority (Elements m)
      in fmt_d (sint (mx + 1)))"

text \<open>The arguments of \<^verbatim>\<open>ProfileInstall\<close>; the \<^verbatim>\<open>Writer\<close> of the output is left out.\<close>

record ProfileInstallArgs =
  Installable :: string
  Offline :: bool
  ProfilePath :: string

text \<open>\<^verbatim>\<open>fmt.Sprintf("%s", v)\<close> for a \<^verbatim>\<open>[]string\<close>: the elements between brackets, separated by spaces.\<close>

primrec joinSpace :: "string list \<Rightarrow> string" where
  "joinSpace [] = []"
| "joinSpace (x # xs) = (if xs = [] then x else x @ '' '' @ joinSpace xs)"

definition fmt_s_list :: "string list \<Rightarrow> string" where
  "fmt_s_list xs = ''['' @ joinSpace xs @ '']''"

text \<open>
  \<^verbatim>\<open>ProfileInstall\<close> returns its error together with the commands it has run, each given
  by the arguments handed to \<^verbatim>\<open>commandContext\<close> and appended afterwards.
\<close>

definition ProfileInstall :: "nix_env \<Rightarrow> ProfileInstallArgs \<Rightarrow> go_error option \<times> string list list" where
  "ProfileInstall env args =
     (if \<not> IsInsecureAllowed env \<and> PackageIsInsecure env (Installable args) then
        (let knownVulnerabilities = PackageKnownVulnerabilities env (Installable args);
             errString = ''Package '' @ Installable args @ '' is insecure. '' @ [CHR 0x0A, CHR 0x0A];
             errString =
               (if length knownVulnerabilities > 0
                then errString @ ''Known vulnerabilities: '' @ fmt_s_list knownVulnerabilities
                       @ '' '' @ [CHR 0x0A, CHR 0x0A]
                else errString);
             errString = errString @ ''To override use `devbox add <pkg> --allow-insecure`''
         in (Some (UserError errString), []))
      else
        (let cmd = [''profile'', ''install'', ''--profile'', ProfilePath args, ''--impure'',
                    ''--priority'', nextPriority env (ProfilePath args)];
             cmd = (if Offline args then cmd @ [''--offline''] else cmd);
             cmd = cmd @ [Installable args]
         in (map_option ExitError (Run env cmd), [cmd])))"


text \<open>
  Vocabulary for the properties of the manifest reader. The two shapes of a manifest
  carrying given priorities are written as JSON values: the legacy shape is an array of
  objects, the modern shape an object of objects under their identifiers. An integer is
  in range when Go's \<^verbatim>\<open>int\<close> holds it. The order of a \<^verbatim>\<open>range\<close> over a map is some
  permutation of its entries.
\<close>

definition priority_object :: "int \<Rightarrow> json" where
  "priority_object p = JObject [(''priority'', JNumber (IntLit p))]"

definition legacy_doc :: "int list \<Rightarrow> json" where
  "legacy_doc ps = JObject [(''elements'', JArray (map priority_object ps))]"

definition modern_doc :: "(string \<times> int) list \<Rightarrow> json" where
  "modern_doc kps = JObject [(''elements'', JObject (map (\<lambda>(k, p). (k, priority_object p)) kps))]"

definition in_int64 :: "int \<Rightarrow> bool" where
  "in_int64 p \<longleftrightarrow> - (2 ^ 63) \<le> p \<and> p < 2 ^ 63"

definition range_is_permutation :: "nix_env \<Rightarrow> bool" where
  "range_is_permutation env \<longleftrightarrow> (\<forall>m. mset (range_order env m) = mset m)"

text \<open>
  Concrete inputs: profiles whose manifest is in the legacy shape, in the modern shape,
  not a JSON text, unreadable, without elements, in the modern shape with a priority
  that is a string, in the modern shape under the key \<^verbatim>\<open>Elements\<close>, in the legacy shape
  with the key \<^verbatim>\<open>elements\<close> twice, or missing; one installable is flagged insecure with
  two known vulnerabilities; every command succeeds.
\<close>

definition example_files :: "string \<Rightarrow> os_error + json option" where
  "example_files p =
     (if p = ''/legacy/manifest.json'' then Inr (Some (legacy_doc [5, 9]))
      else if p = ''/modern/manifest.json'' then Inr (Some (modern_doc [(''a'', 5), (''b'', 9)]))
      else if p = ''/three/manifest.json'' then Inr (Some (legacy_doc [5, 7, 3]))
      else if p = ''/huge/manifest.json'' then Inr (Some (legacy_doc [9223372036854775807]))
      else if p = ''/broken/manifest.json'' then Inr None
      else if p = ''/locked/manifest.json'' then Inl EACCES
      else if p = ''/bare/manifest.json'' then Inr (Some (JObject [(''version'', JNumber (IntLit 2))]))
      else if p = ''/null/manifest.json'' then Inr (Some (JObject [(''elements'', JNull)]))
      else if p = ''/typed/manifest.json'' then
        Inr (Some (JObject [(''elements'', JObject [(''a'', JObject [(''priority'', JString ''high'')])])]))
      else if p = ''/upper/manifest.json'' then
        Inr (Some (JObject [(''Elements'', JObject [(''a'', JObject [(''priority'', JNumber (IntLit 9))])])]))
      else if p = ''/twice/manifest.json'' then
        Inr (Some (JObject [(''elements'', JArray [priority_object 9, priority_object 7]),
                            (''elements'', JArray [JObject []])]))
      else Inl ENOENT)"

definition example_env :: nix_env where
  "example_env =
     \<lparr>ReadFile = example_files,
      range_order = rev,
      IsInsecureAllowed = False,
      PackageIsInsecure = (\<lambda>p. p = ''openssl-1.0''),
      PackageKnownVulnerabilities = (\<lambda>p. if p = ''openssl-1.0'' then [''CVE-1'', ''CVE-2''] else []),
      Run = (\<lambda>cmd. None)\<rparr>"

text \<open>
  The arguments of the install command for a given priority, and the last line of the
  guard's message.
\<close>

definition install_cmd :: "ProfileInstallArgs \<Rightarrow> string \<Rightarrow> string list" where
  "install_cmd args priority =
     [''profile'', ''install'', ''--profile'', ProfilePath args, ''--impure'', ''--priority'', priority]
     @ (if Offline args then [''--offline''] else []) @ [Installable args]"

definition override_hint :: string where
  "override_hint = ''To override use `devbox add <pkg> --allow-insecure`''"

section \<open>Generated files\<close>

text \<open>
  What package \<^verbatim>\<open>shellgen\<close> gets from outside the source file, for a type \<open>'t\<close> of parsed
  templates and a type \<open>'p\<close> of plans:
  \<^item> \<open>os\<close>: the operating system's answers to the file synchronizer;
  \<^item> \<open>ParseFS\<close>: \<^verbatim>\<open>tmpl.ParseFS(tmplFS, glob)\<close>, the error text or the parsed template;
  \<^item> \<open>Execute\<close>: \<^verbatim>\<open>tmpl.Execute(&tmplBuf, plan)\<close>, the bytes written to the buffer and the
    error text when execution stopped with an error;
  \<^item> \<open>needsGlibcPatch\<close>, \<open>RemoveNixpkgs_Enabled\<close>, \<open>FlakePath\<close>: the plan's method, the
    feature flag and the flake directory of the project;
  \<^item> \<open>os_Stat\<close>: the error of \<^verbatim>\<open>os.Stat\<close> on a path, \<open>None\<close> when the path exists;
  \<^item> \<open>exec_Run\<close>: \<^verbatim>\<open>cmd.Run()\<close> on a command line, the exit status when it fails.
\<close>

record ('t, 'p) gen_env =
  os :: os_env
  ParseFS :: "string \<Rightarrow> string + 't"
  Execute :: "'t \<Rightarrow> 'p \<Rightarrow> string \<times> string option"
  needsGlibcPatch :: "'p \<Rightarrow> bool"
  RemoveNixpkgs_Enabled :: bool
  FlakePath :: string
  os_Stat :: "string \<Rightarrow> os_error option"
  exec_Run :: "string list \<Rightarrow> nat option"

text \<open>The package's variables \<^verbatim>\<open>tmplCache\<close> and \<^verbatim>\<open>tmplBuf\<close>, and the file system.\<close>

record 't gen_state =
  tmplCache :: "string \<rightharpoonup> 't"
  tmplBuf :: string
  disk :: fsys

definition writeFromTemplate ::
  "('t, 'p) gen_env \<Rightarrow> string \<Rightarrow> 'p \<Rightarrow> string \<Rightarrow> string \<Rightarrow> 't gen_state
     \<Rightarrow> go_error option \<times> 't gen_state" where
  "writeFromTemplate env path plan tmplName generatedName st =
     (let tmplKey = tmplName @ ''.tmpl'' in
      case (case tmplCache st tmplKey of
              Some tmpl \<Rightarrow> Inr (tmpl, st)
            | None \<Rightarrow>
                (let glob = ''tmpl/'' @ tmplKey in
                 case ParseFS env glob of
                   Inl err \<Rightarrow>
                     Inl (Errorf ''parse embedded tmplFS glob %q: %v'' [glob] (TemplateError err))
                 | Inr tmpl \<Rightarrow> Inr (tmpl, st\<lparr>tmplCache := (tmplCache st)(tmplKey \<mapsto> tmpl)\<rparr>))) of
        Inl err \<Rightarrow> (Some err, st)
      | Inr (tmpl, st1) \<Rightarrow>
          (case Execute env tmpl plan of
             (out, Some err) \<Rightarrow>
               (Some (Errorf ''execute template %s: %v'' [tmplKey] (TemplateError err)),
                st1\<lparr>tmplBuf := out\<rparr>)
           | (out, None) \<Rightarrow>
               (case overwriteFileIfChanged (os env) (filepath_Join [path, generatedName]) out 0x1A4
                       (disk st1) of
                  (Some err, fs') \<Rightarrow>
                    (Some (Errorf ''write %s to file: %v'' [tmplName] (OsError err)),
                     st1\<lparr>tmplBuf := out, disk := fs'\<rparr>)
                | (None, fs') \<Rightarrow> (None, st1\<lparr>tmplBuf := out, disk := fs'\<rparr>))))"

text \<open>
  The loop of \<^verbatim>\<open>isProjectInGitRepo\<close> has no bound of its own: it ends when the directory
  is the root, and \<^verbatim>\<open>filepath.Dir\<close> decides whether the root is reached. Not returning is
  the value \<open>None\<close>.
\<close>

partial_function (option) isProjectInGitRepo :: "(string \<Rightarrow> os_error option) \<Rightarrow> string \<Rightarrow> bool option" where
  "isProjectInGitRepo stat dir =
     (if dir \<noteq> ''/'' then
        (case stat (filepath_Join [dir, ''.git'']) of
           None \<Rightarrow> Some True
         | Some err \<Rightarrow>
             if \<not> is_ErrNotExist err then Some False
             else isProjectInGitRepo stat (filepath_Dir dir))
      else Some False)"

text \<open>
  \<^verbatim>\<open>makeFlakeFile\<close> returns its error, the state and the commands it has run, in order;
  \<open>None\<close> when the walk of \<^verbatim>\<open>isProjectInGitRepo\<close> does not return.
\<close>

definition makeFlakeFile ::
  "('t, 'p) gen_env \<Rightarrow> string \<Rightarrow> 'p \<Rightarrow> 't gen_state
     \<Rightarrow> (go_error option \<times> 't gen_state \<times> string list list) option" where
  "makeFlakeFile env outPath plan st =
     (let flakeDir = FlakePath env;
          templateName = (if RemoveNixpkgs_Enabled env then ''flake_remove_nixpkgs.nix'' else ''flake.nix'')
      in case writeFromTemplate env flakeDir plan templateName ''flake.nix'' st of
           (Some err, st1) \<Rightarrow> Some (Some (WithStack err), st1, [])
         | (None, st1) \<Rightarrow>
             (case isProjectInGitRepo (os_Stat env) outPath of
                None \<Rightarrow> None
              | Some False \<Rightarrow> Some (None, st1, [])
              | Some True \<Rightarrow>
                  (let init = [''git'', ''-C'', flakeDir, ''init''] in
                   case exec_Run env init of
                     Some status \<Rightarrow> Some (Some (WithStack (ExitError status)), st1, [init])
                   | None \<Rightarrow>
                       (let add = [''git'', ''-C'', flakeDir, ''add'', ''flake.nix'']
                                  @ (if needsGlibcPatch env plan then [''glibc-patch/flake.nix''] else [])
                        in Some (map_option (\<lambda>status. WithStack (ExitError status))
                                   (exec_Run env add), st1, [init, add])))))"

text \<open>
  Vocabulary for the properties: the template a call works with, from the cache or
  freshly parsed; and concrete inputs. In the example a template is the text it
  renders, a plan says whether execution succeeds (a failing execution stops after
  three bytes), the flake directory is \<^verbatim>\<open>/proj/.devbox/gen/flake\<close>, and \<^verbatim>\<open>os.Stat\<close> answers
  as the given function says.
\<close>

definition lookup_template :: "('t, 'p) gen_env \<Rightarrow> 't gen_state \<Rightarrow> string \<Rightarrow> string + 't" where
  "lookup_template env st tmplKey =
     (case tmplCache st tmplKey of
        Some tmpl \<Rightarrow> Inr tmpl
      | None \<Rightarrow> ParseFS env (''tmpl/'' @ tmplKey))"

definition example_gen :: "(string \<Rightarrow> os_error option) \<Rightarrow> (string, bool) gen_env" where
  "example_gen stat =
     \<lparr>os = env_ok,
      ParseFS = (\<lambda>glob. if glob = ''tmpl/flake.nix.tmpl'' then Inr ''AAAACCCC''
                         else Inl ''pattern matches no files''),
      Execute = (\<lambda>tmpl plan. if plan then (tmpl, None) else (take 3 tmpl, Some ''undefined field'')),
      needsGlibcPatch = (\<lambda>plan. False),
      RemoveNixpkgs_Enabled = False,
      FlakePath = ''/proj/.devbox/gen/flake'',
      os_Stat = stat,
      exec_Run = (\<lambda>cmd. None)\<rparr>"

definition example_state :: "string gen_state" where
  "example_state =
     \<lparr>tmplCache = Map.empty, tmplBuf = [],
      disk = fs_one ''/proj/.devbox/gen/flake/flake.nix'' ''AAAABBBB'' 0x1A4\<rparr>"


text \<open>
  The walk has found nothing below step \<open>n\<close> when each of the first \<open>n\<close> directories,
  the path and its ancestors in turn, is not the root and holds no marker: \<^verbatim>\<open>os.Stat\<close>
  fails there with a not-found error.
\<close>

definition not_found_below :: "(string \<Rightarrow> os_error option) \<Rightarrow> string \<Rightarrow> nat \<Rightarrow> bool" where
  "not_found_below stat dir n \<longleftrightarrow>
     (\<forall>i<n. (filepath_Dir ^^ i) dir \<noteq> ''/'' \<and>
        (\<exists>err. stat (filepath_Join [(filepath_Dir ^^ i) dir, ''.git'']) = Some err \<and> is_ErrNotExist err))"

text \<open>
  Three answers of \<^verbatim>\<open>os.Stat\<close>: permission denied on \<^verbatim>\<open>/proj/.git\<close>, nothing found
  anywhere, and a marker in \<^verbatim>\<open>/proj\<close>.
\<close>

definition stat_denied :: "string \<Rightarrow> os_error option" where
  "stat_denied p = (if p = ''/proj/.git'' then Some EACCES else Some ENOENT)"

definition stat_plain :: "string \<Rightarrow> os_error option" where
  "stat_plain p = Some ENOENT"

definition stat_repo :: "string \<Rightarrow> os_error option" where
  "stat_repo p = (if p = ''/proj/.git'' then None else Some ENOENT)"


text \<open>
  Measures for the termination of the walk: the weight of a list of path elements counts
  each element with one separator, the solid weight leaves the empty elements out.
\<close>

definition weight :: "string list \<Rightarrow> nat" where
  "weight ks = sum_list (map (\<lambda>c. Suc (length c)) ks)"

definition solid :: "string list \<Rightarrow> nat" where
  "solid ks = sum_list (map (\<lambda>c. if c = [] then 0 else Suc (length c)) ks)"

section \<open>Properties of the file synchronizer\<close>

lemma scan_None_iff:
  "scan env cont off ds = None \<longleftrightarrow> (\<forall>i<length ds. ReadByte env cont (off + i) = Inr (ds ! i))"
proof (induction ds arbitrary: off)
  case Nil
  show ?case by simp
next
  case (Cons d ds)
  show ?case
  proof (cases "ReadByte env cont off")
    case (Inl e)
    then show ?thesis by (auto intro: exI [of _ 0])
  next
    case (Inr b)
    show ?thesis
    proof (cases "b = d")
      case False
      with Inr show ?thesis by (auto intro: exI [of _ 0])
    next
      case True
      have "(\<forall>i<length (d # ds). ReadByte env cont (off + i) = Inr ((d # ds) ! i))
            \<longleftrightarrow> (\<forall>i<length ds. ReadByte env cont (Suc off + i) = Inr (ds ! i))"
        using Inr True by (auto simp: less_Suc_eq_0_disj)
      with Inr True Cons.IH [of "Suc off"] show ?thesis by simp
    qed
  qed
qed

lemma scan_Some_iff:
  "scan env cont off ds = Some k \<longleftrightarrow>
     (\<exists>i<length ds. k = off + i \<and> ReadByte env cont k \<noteq> Inr (ds ! i) \<and>
        (\<forall>j<i. ReadByte env cont (off + j) = Inr (ds ! j)))"
proof (induction ds arbitrary: off)
  case Nil
  show ?case by simp
next
  case (Cons d ds)
  show ?case
  proof (cases "ReadByte env cont off = Inr d")
    case False
    then have "scan env cont off (d # ds) = Some off"
      by (auto split: sum.splits)
    moreover have "(\<exists>i<length (d # ds). k = off + i \<and> ReadByte env cont k \<noteq> Inr ((d # ds) ! i) \<and>
        (\<forall>j<i. ReadByte env cont (off + j) = Inr ((d # ds) ! j))) \<longleftrightarrow> k = off"
    proof
      assume "\<exists>i<length (d # ds). k = off + i \<and> ReadByte env cont k \<noteq> Inr ((d # ds) ! i) \<and>
        (\<forall>j<i. ReadByte env cont (off + j) = Inr ((d # ds) ! j))"
      then obtain i where i: "k = off + i" "\<forall>j<i. ReadByte env cont (off + j) = Inr ((d # ds) ! j)"
        by blast
      have "i = 0"
      proof (rule ccontr)
        assume "i \<noteq> 0"
        then have "0 < i" by simp
        with i(2) have "ReadByte env cont (off + 0) = Inr ((d # ds) ! 0)" by blast
        with False show False by simp
      qed
      with i show "k = off" by simp
    next
      assume "k = off"
      with False show "\<exists>i<length (d # ds). k = off + i \<and> ReadByte env cont k \<noteq> Inr ((d # ds) ! i) \<and>
        (\<forall>j<i. ReadByte env cont (off + j) = Inr ((d # ds) ! j))"
        by (intro exI [of _ 0]) simp
    qed
    ultimately show ?thesis by auto
  next
    case True
    then have s: "scan env cont off (d # ds) = scan env cont (Suc off) ds" by simp
    have "(\<exists>i<length (d # ds). k = off + i \<and> ReadByte env cont k \<noteq> Inr ((d # ds) ! i) \<and>
        (\<forall>j<i. ReadByte env cont (off + j) = Inr ((d # ds) ! j)))
      \<longleftrightarrow> (\<exists>i<length ds. k = Suc off + i \<and> ReadByte env cont k \<noteq> Inr (ds ! i) \<and>
        (\<forall>j<i. ReadByte env cont (Suc off + j) = Inr (ds ! j)))" (is "?L \<longleftrightarrow> ?R")
    proof
      assume ?L
      then obtain i where i: "i < length (d # ds)" "k = off + i"
        "ReadByte env cont k \<noteq> Inr ((d # ds) ! i)"
        "\<forall>j<i. ReadByte env cont (off + j) = Inr ((d # ds) ! j)" by blast
      from i(2,3) True have "i \<noteq> 0" by (cases i) auto
      then obtain i' where i': "i = Suc i'" by (cases i) auto
      have "\<forall>j<i'. ReadByte env cont (Suc off + j) = Inr (ds ! j)"
      proof (intro allI impI)
        fix j assume "j < i'"
        then have "Suc j < i" using i' by simp
        with i(4) have "ReadByte env cont (off + Suc j) = Inr ((d # ds) ! Suc j)" by blast
        then show "ReadByte env cont (Suc off + j) = Inr (ds ! j)" by simp
      qed
      with i i' show ?R by (intro exI [of _ i']) simp
    next
      assume ?R
      then obtain i where i: "i < length ds" "k = Suc off + i"
        "ReadByte env cont k \<noteq> Inr (ds ! i)"
        "\<forall>j<i. ReadByte env cont (Suc off + j) = Inr (ds ! j)" by blast
      have "\<forall>j<Suc i. ReadByte env cont (off + j) = Inr ((d # ds) ! j)"
      proof (intro allI impI)
        fix j assume j: "j < Suc i"
        show "ReadByte env cont (off + j) = Inr ((d # ds) ! j)"
        proof (cases j)
          case 0
          with True show ?thesis by simp
        next
          case (Suc j')
          with j have "j' < i" by simp
          with i(4) have "ReadByte env cont (Suc off + j') = Inr (ds ! j')" by blast
          with Suc show ?thesis by simp
        qed
      qed
      with i show ?L by (intro exI [of _ "Suc i"]) simp
    qed
    with s Cons.IH [of "Suc off"] show ?thesis by simp
  qed
qed

lemma scan_first_mismatch: "scan env cont 0 data = Some k \<longleftrightarrow> first_mismatch env cont data k"
  by (auto simp: scan_Some_iff first_mismatch_def)

lemma first_mismatch_unique:
  "first_mismatch env cont data k \<Longrightarrow> first_mismatch env cont data k' \<Longrightarrow> k = k'"
  by (metis scan_first_mismatch option.inject)

lemma scan_reads_back: "scan env cont 0 data = None \<longleftrightarrow> reads_back env cont data"
  by (simp add: scan_None_iff reads_back_def)

lemma reads_back_no_mismatch: "reads_back env cont data \<longleftrightarrow> (\<forall>k. \<not> first_mismatch env cont data k)"
proof -
  have "scan env cont 0 data = None \<longleftrightarrow> (\<forall>k. scan env cont 0 data \<noteq> Some k)" by auto
  then show ?thesis by (simp add: scan_reads_back scan_first_mismatch)
qed

lemma length_resize [simp]: "length (resize n cont) = n"
  by (simp add: resize_def)

lemma resize_same [simp]: "length cont = n \<Longrightarrow> resize n cont = cont"
  by (simp add: resize_def)

lemma write_bytes_tail:
  "k \<le> length data \<Longrightarrow> length cont = length data \<Longrightarrow>
   write_bytes cont k (drop k data) = take k cont @ drop k data"
  by (simp add: write_bytes_def)

lemma overwriteFile_result:
  assumes "files fs path = Some f" and "k \<le> length data"
    and "overwriteFile env path data k fs = (None, fs')"
  shows "\<exists>f'. files fs' path = Some f'
           \<and> content f' = take k (resize (length data) (content f)) @ drop k data"
    and "trace fs' = trace fs @ EvTruncate path (length data) #
           (if k < length data then [EvWriteAt path k (drop k data)] else [])"
    and "\<forall>p. p \<noteq> path \<longrightarrow> files fs' p = files fs p"
  using assms
  by (auto simp: overwriteFile_def Truncate_def WriteAt_def touch_def write_bytes_tail
           split: option.splits prod.splits if_splits)

lemma overwriteFile_succeeds:
  assumes "files fs path = Some f" "truncate_err env = None" "writeat_err env = None"
  shows "fst (overwriteFile env path data k fs) = None"
  using assms
  by (auto simp: overwriteFile_def Truncate_def WriteAt_def touch_def
           split: option.splits prod.splits if_splits)

lemma writes_of_trace:
  "trace fs' = trace fs @ evs \<Longrightarrow> writes fs' = writes fs @ filter (\<lambda>ev. \<not> is_chmod ev) evs"
  by (simp add: writes_def)

lemma take_eq_of_reads:
  assumes "\<forall>j<k. ReadByte env cont j = Inr (data ! j)" "k \<le> length data"
  shows "take k cont = take k data"
proof (rule nth_equalityI)
  have len: "\<forall>j<k. j < length cont"
    using assms(1) by (auto simp: ReadByte_def split: option.splits if_splits)
  then have "k \<le> length cont"
    by (meson not_less_eq_eq le_refl less_Suc_eq_le not_le_imp_less order_less_irrefl)
  then show "length (take k cont) = length (take k data)" using assms(2) by simp
  show "take k cont ! i = take k data ! i" if "i < length (take k cont)" for i
  proof -
    from that have "i < k" by simp
    with assms(1) have "ReadByte env cont i = Inr (data ! i)" by blast
    then have "cont ! i = data ! i"
      by (auto simp: ReadByte_def split: option.splits if_splits)
    with \<open>i < k\<close> show ?thesis by simp
  qed
qed

lemma first_mismatch_content:
  assumes "first_mismatch env cont data k"
  shows "take k cont @ drop k data = data"
proof -
  from assms have "k \<le> length data" "\<forall>j<k. ReadByte env cont j = Inr (data ! j)"
    by (auto simp: first_mismatch_def)
  then have "take k cont = take k data" by (metis take_eq_of_reads)
  then show ?thesis by simp
qed

lemma no_mismatch_content:
  assumes "scan env cont 0 data = None" "length cont = length data"
  shows "cont = data"
proof -
  from assms(1) have "\<forall>j<length data. ReadByte env cont j = Inr (data ! j)"
    by (simp add: scan_None_iff)
  then have "take (length data) cont = take (length data) data"
    by (metis take_eq_of_reads le_refl)
  with assms(2) show ?thesis by simp
qed

lemma reads_back_content:
  assumes "reads_back env cont data" "length cont = length data"
  shows "cont = data"
  using assms no_mismatch_content by (simp add: scan_reads_back)

text \<open>The call on an existing file whose open succeeds, after the permission step.\<close>

lemma OpenFile_existing:
  "files fs path = Some f \<Longrightarrow> open_err env = None \<Longrightarrow> OpenFile env path perm fs = (None, fs)"
  by (simp add: OpenFile_def)

lemma permission_step_ok:
  assumes "files fs path = Some f" "permission_step env path perm f fs = (None, fs1)"
  shows "\<exists>f1. files fs1 path = Some f1 \<and> content f1 = content f \<and> mtime f1 = mtime f"
    and "writes fs1 = writes fs" and "clock fs1 = clock fs"
  using assms
  by (auto simp: permission_step_def Chmod_def writes_def split: if_splits option.splits)

lemma permission_step_failed:
  assumes "permission_step env path perm f fs = (Some err, fs1)"
  shows "fs1 = fs"
  using assms
  by (auto simp: permission_step_def Chmod_def split: if_splits option.splits)

lemma permission_step_succeeds:
  assumes "files fs path = Some f" "chmod_err env = None"
  shows "fst (permission_step env path perm f fs) = None"
  using assms by (simp add: permission_step_def Chmod_def)

lemma overwriteFileIfChanged_existing:
  assumes "files fs path = Some f" "open_err env = None"
  shows "overwriteFileIfChanged env path data perm fs =
     (case permission_step env path perm f fs of
        (Some err, fs1) \<Rightarrow> (Some err, fs1)
      | (None, fs1) \<Rightarrow>
          if stat_err env = None \<and> length (content f) \<noteq> length data
          then overwriteFile env path data 0 fs1
          else (case scan env (case files fs1 path of None \<Rightarrow> [] | Some f \<Rightarrow> content f) 0 data of
                  Some offset \<Rightarrow> overwriteFile env path data offset fs1
                | None \<Rightarrow> (None, fs1)))"
  using assms
  by (cases "stat_err env")
     (simp_all add: overwriteFileIfChanged_def OpenFile_existing Stat_def permission_step_def
        split: prod.splits option.splits)

lemma take_resize: "k \<le> n \<Longrightarrow> k \<le> length cont \<Longrightarrow> take k (resize n cont) = take k cont"
  by (simp add: resize_def min_def)

lemma rewrite_result:
  assumes f1: "files fs1 path = Some f1"
    and ow: "overwriteFile env path data k fs1 = (None, fs')"
    and k: "k \<le> length data" "k \<le> length (content f1)"
    and pre: "take k (content f1) = take k data"
  shows "map_option content (files fs' path) = Some data"
    and "writes fs' = writes fs1 @ EvTruncate path (length data) #
           (if k < length data then [EvWriteAt path k (drop k data)] else [])"
proof -
  from overwriteFile_result(1) [OF f1 k(1) ow] obtain f' where
    f': "files fs' path = Some f'"
        "content f' = take k (resize (length data) (content f1)) @ drop k data"
    by blast
  have "take k (resize (length data) (content f1)) = take k data"
    using take_resize [OF k] pre by simp
  with f' show "map_option content (files fs' path) = Some data" by simp
  from overwriteFile_result(2) [OF f1 k(1) ow]
  show "writes fs' = writes fs1 @ EvTruncate path (length data) #
           (if k < length data then [EvWriteAt path k (drop k data)] else [])"
    by (auto dest!: writes_of_trace)
qed

lemma first_mismatch_prefix:
  assumes "first_mismatch env cont data k"
  shows "k < length data" "k \<le> length cont" "take k cont = take k data"
proof -
  from assms show k: "k < length data" by (simp add: first_mismatch_def)
  from assms have rd: "\<forall>j<k. ReadByte env cont j = Inr (data ! j)"
    by (simp add: first_mismatch_def)
  then have "\<forall>j<k. j < length cont"
    by (auto simp: ReadByte_def split: option.splits if_splits)
  then show "k \<le> length cont"
    by (meson not_less_eq_eq le_refl less_Suc_eq_le not_le_imp_less order_less_irrefl)
  from rd k show "take k cont = take k data"
    by (intro take_eq_of_reads) simp_all
qed

text \<open>The outcome of a call that returns no error, case by case.\<close>

lemma synchronized_cases:
  assumes f: "files fs path = Some f" and op: "open_err env = None"
    and ok: "overwriteFileIfChanged env path data perm fs = (None, fs')"
  shows "stat_err env = None \<Longrightarrow> length (content f) \<noteq> length data \<Longrightarrow>
           map_option content (files fs' path) = Some data
         \<and> writes fs' = writes fs @ EvTruncate path (length data) #
             (if data = [] then [] else [EvWriteAt path 0 data])"
    and "stat_err env \<noteq> None \<or> length (content f) = length data \<Longrightarrow>
         first_mismatch env (content f) data k \<Longrightarrow>
           map_option content (files fs' path) = Some data
         \<and> writes fs' = writes fs @ [EvTruncate path (length data), EvWriteAt path k (drop k data)]"
    and "stat_err env \<noteq> None \<or> length (content f) = length data \<Longrightarrow>
         reads_back env (content f) data \<Longrightarrow>
           untouched path f fs fs'"
proof -
  note unf = overwriteFileIfChanged_existing [OF f op, of data perm]
  obtain r fs1 where c: "permission_step env path perm f fs = (r, fs1)"
    by (cases "permission_step env path perm f fs")
  have r: "r = None" using ok unfolding unf c by (cases r) auto
  from permission_step_ok [OF f c [unfolded r]] obtain f1 where
    f1: "files fs1 path = Some f1" "content f1 = content f" "mtime f1 = mtime f"
    and w1: "writes fs1 = writes fs" and c1: "clock fs1 = clock fs"
    by blast
  {
    assume "stat_err env = None" "length (content f) \<noteq> length data"
    then have ow: "overwriteFile env path data 0 fs1 = (None, fs')"
      using ok unfolding unf c r by simp
    from rewrite_result [OF f1(1) ow] w1
    show "map_option content (files fs' path) = Some data
         \<and> writes fs' = writes fs @ EvTruncate path (length data) #
             (if data = [] then [] else [EvWriteAt path 0 data])"
      by simp
  }
  {
    assume scanned: "stat_err env \<noteq> None \<or> length (content f) = length data"
      and fm: "first_mismatch env (content f) data k"
    from fm have "scan env (content f) 0 data = Some k" by (simp add: scan_first_mismatch)
    then have ow: "overwriteFile env path data k fs1 = (None, fs')"
      using ok scanned f1 unfolding unf c r by auto
    from first_mismatch_prefix [OF fm] rewrite_result [OF f1(1) ow] f1(2) w1
    show "map_option content (files fs' path) = Some data
         \<and> writes fs' = writes fs @ [EvTruncate path (length data), EvWriteAt path k (drop k data)]"
      by simp
  }
  {
    assume scanned: "stat_err env \<noteq> None \<or> length (content f) = length data"
      and rb: "reads_back env (content f) data"
    from rb have "scan env (content f) 0 data = None" by (simp add: scan_reads_back)
    then have "fs' = fs1" using ok scanned f1 unfolding unf c r by auto
    with f1 w1 c1 show "untouched path f fs fs'" by (simp add: untouched_def)
  }
qed

lemma synchronizes_without_faults:
  assumes f: "files fs path = Some f" and op: "open_err env = None"
    and ok: "chmod_err env = None" "truncate_err env = None" "writeat_err env = None"
  shows "fst (overwriteFileIfChanged env path data perm fs) = None"
proof -
  obtain r fs1 where c: "permission_step env path perm f fs = (r, fs1)"
    by (cases "permission_step env path perm f fs")
  from permission_step_succeeds [OF f ok(1), of perm] c have r: "r = None" by simp
  from permission_step_ok(1) [OF f c [unfolded r]] obtain f1 where f1: "files fs1 path = Some f1"
    by blast
  have "fst (overwriteFile env path data k fs1) = None" for k
    by (rule overwriteFile_succeeds [OF f1 ok(2,3)])
  then show ?thesis
    unfolding overwriteFileIfChanged_existing [OF f op] c r by (simp split: option.splits)
qed

text \<open>A call on content that reads back as the data has written nothing, whatever it returns.\<close>

lemma equal_content_untouched:
  assumes f: "files fs path = Some f" and op: "open_err env = None"
    and rb: "reads_back env (content f) data"
    and sz: "stat_err env \<noteq> None \<or> length (content f) = length data"
  shows "untouched path f fs (snd (overwriteFileIfChanged env path data perm fs))"
    and "chmod_err env = None \<longrightarrow> fst (overwriteFileIfChanged env path data perm fs) = None"
proof -
  note unf = overwriteFileIfChanged_existing [OF f op, of data perm]
  obtain r fs1 where c: "permission_step env path perm f fs = (r, fs1)"
    by (cases "permission_step env path perm f fs")
  from rb have sc: "scan env (content f) 0 data = None" by (simp add: scan_reads_back)
  show "untouched path f fs (snd (overwriteFileIfChanged env path data perm fs))"
  proof (cases r)
    case None
    from permission_step_ok(1) [OF f c [unfolded None]] obtain f1 where
      f1: "files fs1 path = Some f1" "content f1 = content f" by blast
    have "overwriteFileIfChanged env path data perm fs = (None, fs1)"
      unfolding unf c None using sz sc f1 by auto
    from synchronized_cases(3) [OF f op this sz rb] this show ?thesis by simp
  next
    case (Some err)
    from permission_step_failed [OF c [unfolded Some]] have "fs1 = fs" .
    then have "overwriteFileIfChanged env path data perm fs = (Some err, fs)"
      unfolding unf c Some by simp
    with f show ?thesis by (simp add: untouched_def)
  qed
  show "chmod_err env = None \<longrightarrow> fst (overwriteFileIfChanged env path data perm fs) = None"
  proof
    assume "chmod_err env = None"
    from permission_step_succeeds [OF f this, of perm] c have r: "r = None" by simp
    from permission_step_ok(1) [OF f c [unfolded r]] obtain f1 where
      f1: "files fs1 path = Some f1" "content f1 = content f" by blast
    show "fst (overwriteFileIfChanged env path data perm fs) = None"
      unfolding unf c r using sz sc f1 by auto
  qed
qed

subsection \<open>Unchanged content is not written\<close>

text \<open>
  Claim C1 as stated fails when a read fails: the loop of \<^verbatim>\<open>overwriteFileIfChanged\<close> takes
  a failed \<^verbatim>\<open>ReadByte\<close> for a mismatch. An existing file \<^verbatim>\<open>AAAA\<close> of mode \<^verbatim>\<open>0o644\<close> is
  synchronized with the same four bytes and the same mode while the read of the byte at
  offset 2 fails: the file is truncated to its own length and rewritten from offset 2,
  the call returns no error, the content is as before and the modification time has
  moved from 7 to 11.
\<close>

theorem read_error_forces_rewrite:
  "fst (overwriteFileIfChanged env_read_fails ''/p/flake.nix'' ''AAAA'' 0x1A4
          (fs_one ''/p/flake.nix'' ''AAAA'' 0x1A4)) = None
   \<and> trace (snd (overwriteFileIfChanged env_read_fails ''/p/flake.nix'' ''AAAA'' 0x1A4
                   (fs_one ''/p/flake.nix'' ''AAAA'' 0x1A4)))
       = [EvTruncate ''/p/flake.nix'' 4, EvWriteAt ''/p/flake.nix'' 2 ''AA'']
   \<and> map_option content
         (files (snd (overwriteFileIfChanged env_read_fails ''/p/flake.nix'' ''AAAA'' 0x1A4
                        (fs_one ''/p/flake.nix'' ''AAAA'' 0x1A4))) ''/p/flake.nix'')
       = Some ''AAAA''
   \<and> map_option mtime (files (fs_one ''/p/flake.nix'' ''AAAA'' 0x1A4) ''/p/flake.nix'') = Some 7
   \<and> map_option mtime
         (files (snd (overwriteFileIfChanged env_read_fails ''/p/flake.nix'' ''AAAA'' 0x1A4
                        (fs_one ''/p/flake.nix'' ''AAAA'' 0x1A4))) ''/p/flake.nix'')
       = Some 11"
  by (simp add: overwriteFileIfChanged_def OpenFile_def Stat_def Chmod_def Perm_def
        ReadByte_def overwriteFile_def Truncate_def WriteAt_def touch_def resize_def
        write_bytes_def env_read_fails_def env_ok_def fs_one_def)

text \<open>
  Claim C1, as amended. When the existing file opens, has the size of the new data, and
  every byte of the data is read back from it, without a read error and equal,
  \<^verbatim>\<open>overwriteFileIfChanged\<close> performs no write: content and modification time of the file
  are as before, the clock has not moved and the trace has gained no event other than a
  permission change. This holds whether or not a permission change was applied (also
  when \<open>Stat\<close> or \<open>Chmod\<close> failed), and a second identical call is a no-op in the same
  sense. Each call returns no error unless its \<open>Chmod\<close> failed.
\<close>

theorem unchanged_content_performs_no_write:
  assumes f: "files fs path = Some f" and sz: "length (content f) = length data"
    and op: "open_err env = None" and rb: "reads_back env (content f) data"
    and op': "open_err env' = None" and rb': "reads_back env' (content f) data"
  shows "content f = data
       \<and> untouched path f fs (snd (overwriteFileIfChanged env path data perm fs))
       \<and> (chmod_err env = None \<longrightarrow> fst (overwriteFileIfChanged env path data perm fs) = None)
       \<and> untouched path f fs
           (snd (overwriteFileIfChanged env' path data perm
                  (snd (overwriteFileIfChanged env path data perm fs))))
       \<and> (chmod_err env' = None \<longrightarrow>
            fst (overwriteFileIfChanged env' path data perm
                  (snd (overwriteFileIfChanged env path data perm fs))) = None)"
proof -
  let ?fs1 = "snd (overwriteFileIfChanged env path data perm fs)"
  let ?fs2 = "snd (overwriteFileIfChanged env' path data perm ?fs1)"
  have eq: "content f = data" by (rule reads_back_content [OF rb sz])
  have u1: "untouched path f fs ?fs1"
    by (rule equal_content_untouched(1) [OF f op rb]) (simp add: sz)
  then obtain f1 where f1: "files ?fs1 path = Some f1" "content f1 = content f" "mtime f1 = mtime f"
    by (auto simp: untouched_def)
  have u2: "untouched path f1 ?fs1 ?fs2"
    by (rule equal_content_untouched(1) [OF f1(1) op']) (simp_all add: f1(2) rb' sz)
  have "untouched path f fs ?fs2"
    using u1 u2 f1 unfolding untouched_def by simp
  moreover have "chmod_err env = None \<longrightarrow> fst (overwriteFileIfChanged env path data perm fs) = None"
    by (rule equal_content_untouched(2) [OF f op rb]) (simp add: sz)
  moreover have "chmod_err env' = None \<longrightarrow>
      fst (overwriteFileIfChanged env' path data perm ?fs1) = None"
    by (rule equal_content_untouched(2) [OF f1(1) op']) (simp_all add: f1(2) rb' sz)
  ultimately show ?thesis using u1 eq by blast
qed

text \<open>
  The theorem at a file of mode \<^verbatim>\<open>0o755\<close> synchronized twice with its own content and
  mode \<^verbatim>\<open>0o644\<close>: the first call changes the permissions, neither call writes.
\<close>

theorem unchanged_content_performs_no_write_witness:
  "untouched ''/p/flake.nix'' \<lparr>content = ''AAAACCCC'', fmode = 0x1ED, mtime = 7\<rparr>
     (fs_one ''/p/flake.nix'' ''AAAACCCC'' 0x1ED)
     (snd (overwriteFileIfChanged env_ok ''/p/flake.nix'' ''AAAACCCC'' 0x1A4
            (fs_one ''/p/flake.nix'' ''AAAACCCC'' 0x1ED)))
   \<and> fst (overwriteFileIfChanged env_ok ''/p/flake.nix'' ''AAAACCCC'' 0x1A4
            (fs_one ''/p/flake.nix'' ''AAAACCCC'' 0x1ED)) = None
   \<and> untouched ''/p/flake.nix'' \<lparr>content = ''AAAACCCC'', fmode = 0x1ED, mtime = 7\<rparr>
     (fs_one ''/p/flake.nix'' ''AAAACCCC'' 0x1ED)
     (snd (overwriteFileIfChanged env_ok ''/p/flake.nix'' ''AAAACCCC'' 0x1A4
            (snd (overwriteFileIfChanged env_ok ''/p/flake.nix'' ''AAAACCCC'' 0x1A4
                   (fs_one ''/p/flake.nix'' ''AAAACCCC'' 0x1ED)))))
   \<and> trace (snd (overwriteFileIfChanged env_ok ''/p/flake.nix'' ''AAAACCCC'' 0x1A4
            (fs_one ''/p/flake.nix'' ''AAAACCCC'' 0x1ED))) = [EvChmod ''/p/flake.nix'' 0x1A4]"
proof -
  let ?f = "\<lparr>content = ''AAAACCCC'', fmode = 0x1ED, mtime = 7\<rparr>"
  have f: "files (fs_one ''/p/flake.nix'' ''AAAACCCC'' 0x1ED) ''/p/flake.nix'' = Some ?f"
    by (simp add: fs_one_def)
  have sz: "length (content ?f) = length ''AAAACCCC''" by simp
  have op: "open_err env_ok = None" and ch: "chmod_err env_ok = None"
    by (simp_all add: env_ok_def)
  have sc: "scan env_ok ''AAAACCCC'' 0 ''AAAACCCC'' = None"
    by (simp add: ReadByte_def env_ok_def)
  have "reads_back env_ok ''AAAACCCC'' ''AAAACCCC''"
    by (rule iffD1 [OF scan_reads_back sc])
  then have rb: "reads_back env_ok (content ?f) ''AAAACCCC''" by simp
  have t: "trace (snd (overwriteFileIfChanged env_ok ''/p/flake.nix'' ''AAAACCCC'' 0x1A4
            (fs_one ''/p/flake.nix'' ''AAAACCCC'' 0x1ED))) = [EvChmod ''/p/flake.nix'' 0x1A4]"
    by (simp add: overwriteFileIfChanged_def OpenFile_def Stat_def Chmod_def Perm_def
          ReadByte_def env_ok_def fs_one_def)
  from unchanged_content_performs_no_write [OF f sz op rb op rb, of "0x1A4"] ch t
  show ?thesis by blast
qed

subsection \<open>Changed content is reconciled\<close>

text \<open>
  Claim C2 as stated fails when \<^verbatim>\<open>file.Stat\<close> fails: the code then skips the comparison
  of the sizes and goes on to the scan. An existing file \<^verbatim>\<open>AB\<close> synchronized with
  \<^verbatim>\<open>ABCD\<close> differs in size and is yet rewritten from offset 2 only, the end of the file
  being the first read error; an existing file \<^verbatim>\<open>AAAABBBB\<close> synchronized with \<^verbatim>\<open>AAAA\<close>
  is scanned without a mismatch and keeps its content, and the call returns no error.
\<close>

theorem stat_failure_skips_size_comparison:
  "fst (overwriteFileIfChanged env_stat_fails ''/p/flake.nix'' ''ABCD'' 0x1A4
          (fs_one ''/p/flake.nix'' ''AB'' 0x1A4)) = None
   \<and> writes (snd (overwriteFileIfChanged env_stat_fails ''/p/flake.nix'' ''ABCD'' 0x1A4
                    (fs_one ''/p/flake.nix'' ''AB'' 0x1A4)))
       = [EvTruncate ''/p/flake.nix'' 4, EvWriteAt ''/p/flake.nix'' 2 ''CD'']
   \<and> fst (overwriteFileIfChanged env_stat_fails ''/p/flake.nix'' ''AAAA'' 0x1A4
          (fs_one ''/p/flake.nix'' ''AAAABBBB'' 0x1A4)) = None
   \<and> map_option content
         (files (snd (overwriteFileIfChanged env_stat_fails ''/p/flake.nix'' ''AAAA'' 0x1A4
                        (fs_one ''/p/flake.nix'' ''AAAABBBB'' 0x1A4))) ''/p/flake.nix'')
       = Some ''AAAABBBB''"
  by (simp add: overwriteFileIfChanged_def OpenFile_def Stat_def Chmod_def Perm_def
        ReadByte_def overwriteFile_def Truncate_def WriteAt_def touch_def resize_def
        write_bytes_def writes_def env_stat_fails_def env_ok_def fs_one_def)

text \<open>
  Claim C2, as amended. For an existing file that opens, and any new data: when no
  \<open>Chmod\<close>, \<open>Truncate\<close> or \<open>WriteAt\<close> fails the call returns no error. When it returns no
  error and \<^verbatim>\<open>file.Stat\<close> has succeeded, the file's content is exactly the new data,
  reached by the steps of the specification. If the existing size differs from the
  length of the data, the file is truncated to that length and rewritten from offset 0.
  If the sizes are equal, the content is scanned byte by byte, and at the first offset
  \<open>k\<close> where the read fails or the byte differs the file is truncated to the length of
  the data and only the bytes from \<open>k\<close> on are written, at offset \<open>k\<close>; when the data
  reads back nothing is written. When \<^verbatim>\<open>file.Stat\<close> has failed the sizes are not
  compared and the scan alone decides: at the first such offset \<open>k\<close> the file is
  truncated and rewritten from \<open>k\<close> on, and then holds the new data; when the data reads
  back nothing is written.
\<close>

theorem overwriteFileIfChanged_reconciles:
  assumes f: "files fs path = Some f" and op: "open_err env = None"
  shows "(chmod_err env = None \<and> truncate_err env = None \<and> writeat_err env = None \<longrightarrow>
            fst (overwriteFileIfChanged env path data perm fs) = None)
       \<and> (fst (overwriteFileIfChanged env path data perm fs) = None \<and> stat_err env = None \<longrightarrow>
            map_option content (files (snd (overwriteFileIfChanged env path data perm fs)) path)
              = Some data
          \<and> (length (content f) \<noteq> length data \<longrightarrow>
               writes (snd (overwriteFileIfChanged env path data perm fs)) =
                 writes fs @ EvTruncate path (length data) #
                   (if data = [] then [] else [EvWriteAt path 0 data]))
          \<and> (length (content f) = length data \<longrightarrow>
               (\<forall>k. first_mismatch env (content f) data k \<longrightarrow>
                  writes (snd (overwriteFileIfChanged env path data perm fs)) =
                    writes fs @ [EvTruncate path (length data), EvWriteAt path k (drop k data)])
             \<and> (reads_back env (content f) data \<longrightarrow>
                  writes (snd (overwriteFileIfChanged env path data perm fs)) = writes fs)))
       \<and> (fst (overwriteFileIfChanged env path data perm fs) = None \<and> stat_err env \<noteq> None \<longrightarrow>
            (\<forall>k. first_mismatch env (content f) data k \<longrightarrow>
               map_option content (files (snd (overwriteFileIfChanged env path data perm fs)) path)
                 = Some data
             \<and> writes (snd (overwriteFileIfChanged env path data perm fs)) =
                 writes fs @ [EvTruncate path (length data), EvWriteAt path k (drop k data)])
          \<and> (reads_back env (content f) data \<longrightarrow>
               writes (snd (overwriteFileIfChanged env path data perm fs)) = writes fs))"
proof -
  let ?res = "overwriteFileIfChanged env path data perm fs"
  let ?n = "length data"
  have a: "fst ?res = None"
    if "chmod_err env = None" "truncate_err env = None" "writeat_err env = None"
    by (rule synchronizes_without_faults [OF f op that])
  have res: "?res = (None, snd ?res)" if "fst ?res = None"
    using that by (simp add: prod_eq_iff)
  have b: "map_option content (files (snd ?res) path) = Some data
          \<and> (length (content f) \<noteq> ?n \<longrightarrow>
               writes (snd ?res) = writes fs @ EvTruncate path ?n #
                   (if data = [] then [] else [EvWriteAt path 0 data]))
          \<and> (length (content f) = ?n \<longrightarrow>
               (\<forall>k. first_mismatch env (content f) data k \<longrightarrow>
                  writes (snd ?res) = writes fs @ [EvTruncate path ?n, EvWriteAt path k (drop k data)])
             \<and> (reads_back env (content f) data \<longrightarrow> writes (snd ?res) = writes fs))"
    if ok: "fst ?res = None" and st: "stat_err env = None"
  proof (cases "length (content f) = ?n")
    case False
    from synchronized_cases(1) [OF f op res [OF ok] st False] False show ?thesis by simp
  next
    case True
    have m: "writes (snd ?res) = writes fs @ [EvTruncate path ?n, EvWriteAt path k (drop k data)]"
      and mc: "map_option content (files (snd ?res) path) = Some data"
      if "first_mismatch env (content f) data k" for k
      using synchronized_cases(2) [OF f op res [OF ok] _ that] True by simp_all
    have u: "untouched path f fs (snd ?res)" if "reads_back env (content f) data"
      using synchronized_cases(3) [OF f op res [OF ok] _ that] True by simp
    have "map_option content (files (snd ?res) path) = Some data"
    proof (cases "reads_back env (content f) data")
      case rb: True
      from reads_back_content [OF rb True] u [OF rb] show ?thesis by (simp add: untouched_def)
    next
      case False
      then obtain k where "first_mismatch env (content f) data k"
        by (auto simp: reads_back_no_mismatch)
      then show ?thesis by (rule mc)
    qed
    moreover have "writes (snd ?res) = writes fs" if "reads_back env (content f) data"
      using u [OF that] by (simp add: untouched_def)
    ultimately show ?thesis using True m by blast
  qed
  have c: "(\<forall>k. first_mismatch env (content f) data k \<longrightarrow>
               map_option content (files (snd ?res) path) = Some data
             \<and> writes (snd ?res) = writes fs @ [EvTruncate path ?n, EvWriteAt path k (drop k data)])
          \<and> (reads_back env (content f) data \<longrightarrow> writes (snd ?res) = writes fs)"
    if ok: "fst ?res = None" and st: "stat_err env \<noteq> None"
  proof (intro conjI allI impI)
    fix k assume fm: "first_mismatch env (content f) data k"
    from synchronized_cases(2) [OF f op res [OF ok] _ fm] st
    show "map_option content (files (snd ?res) path) = Some data"
      and "writes (snd ?res) = writes fs @ [EvTruncate path ?n, EvWriteAt path k (drop k data)]"
      by simp_all
  next
    assume rb: "reads_back env (content f) data"
    from synchronized_cases(3) [OF f op res [OF ok] _ rb] st
    show "writes (snd ?res) = writes fs" by (simp add: untouched_def)
  qed
  from a b c show ?thesis by blast
qed

text \<open>
  The theorem at the specification's examples: the existing file holds \<^verbatim>\<open>AAAABBBB\<close>; for
  the new data \<^verbatim>\<open>AAAACCCC\<close> only the bytes from offset 4 on are written, for the shorter
  new data \<^verbatim>\<open>AAAA\<close> the file is truncated to four bytes and rewritten; and when
  \<open>Stat\<close> fails on the file \<^verbatim>\<open>AB\<close>, the new data \<^verbatim>\<open>ABCD\<close> is written from offset 2 on.
\<close>

theorem overwriteFileIfChanged_reconciles_witness:
  "fst (overwriteFileIfChanged env_ok ''/p/flake.nix'' ''AAAACCCC'' 0x1A4
          (fs_one ''/p/flake.nix'' ''AAAABBBB'' 0x1A4)) = None
   \<and> map_option content
         (files (snd (overwriteFileIfChanged env_ok ''/p/flake.nix'' ''AAAACCCC'' 0x1A4
                        (fs_one ''/p/flake.nix'' ''AAAABBBB'' 0x1A4))) ''/p/flake.nix'')
       = Some ''AAAACCCC''
   \<and> writes (snd (overwriteFileIfChanged env_ok ''/p/flake.nix'' ''AAAACCCC'' 0x1A4
                    (fs_one ''/p/flake.nix'' ''AAAABBBB'' 0x1A4)))
       = [EvTruncate ''/p/flake.nix'' 8, EvWriteAt ''/p/flake.nix'' 4 ''CCCC'']
   \<and> fst (overwriteFileIfChanged env_ok ''/p/flake.nix'' ''AAAA'' 0x1A4
          (fs_one ''/p/flake.nix'' ''AAAABBBB'' 0x1A4)) = None
   \<and> map_option content
         (files (snd (overwriteFileIfChanged env_ok ''/p/flake.nix'' ''AAAA'' 0x1A4
                        (fs_one ''/p/flake.nix'' ''AAAABBBB'' 0x1A4))) ''/p/flake.nix'')
       = Some ''AAAA''
   \<and> writes (snd (overwriteFileIfChanged env_ok ''/p/flake.nix'' ''AAAA'' 0x1A4
                    (fs_one ''/p/flake.nix'' ''AAAABBBB'' 0x1A4)))
       = [EvTruncate ''/p/flake.nix'' 4, EvWriteAt ''/p/flake.nix'' 0 ''AAAA'']
   \<and> map_option content
         (files (snd (overwriteFileIfChanged env_stat_fails ''/p/flake.nix'' ''ABCD'' 0x1A4
                        (fs_one ''/p/flake.nix'' ''AB'' 0x1A4))) ''/p/flake.nix'')
       = Some ''ABCD''"
proof -
  have f: "files (fs_one ''/p/flake.nix'' cont 0x1A4) ''/p/flake.nix''
             = Some \<lparr>content = cont, fmode = 0x1A4, mtime = 7\<rparr>" for cont
    by (simp add: fs_one_def)
  have op: "open_err env_ok = None" and st: "stat_err env_ok = None"
    and ok: "chmod_err env_ok = None \<and> truncate_err env_ok = None \<and> writeat_err env_ok = None"
    by (simp_all add: env_ok_def)
  have op': "open_err env_stat_fails = None" and st': "stat_err env_stat_fails \<noteq> None"
    and ok': "chmod_err env_stat_fails = None \<and> truncate_err env_stat_fails = None
              \<and> writeat_err env_stat_fails = None"
    by (simp_all add: env_stat_fails_def env_ok_def)
  have sc: "scan env_ok ''AAAABBBB'' 0 ''AAAACCCC'' = Some 4"
    by (simp add: ReadByte_def env_ok_def)
  have fm: "first_mismatch env_ok ''AAAABBBB'' ''AAAACCCC'' 4"
    by (rule iffD1 [OF scan_first_mismatch sc])
  have sc': "scan env_stat_fails ''AB'' 0 ''ABCD'' = Some 2"
    by (simp add: ReadByte_def env_stat_fails_def env_ok_def)
  have fm': "first_mismatch env_stat_fails ''AB'' ''ABCD'' 2"
    by (rule iffD1 [OF scan_first_mismatch sc'])
  have w: "writes (fs_one ''/p/flake.nix'' cont 0x1A4) = []" for cont
    by (simp add: writes_def fs_one_def)
  from overwriteFileIfChanged_reconciles
         [OF f [of "''AAAABBBB''"] op, where data = "''AAAACCCC''" and perm = "0x1A4"] ok st fm w
  have one: "fst (overwriteFileIfChanged env_ok ''/p/flake.nix'' ''AAAACCCC'' 0x1A4
          (fs_one ''/p/flake.nix'' ''AAAABBBB'' 0x1A4)) = None
   \<and> map_option content
         (files (snd (overwriteFileIfChanged env_ok ''/p/flake.nix'' ''AAAACCCC'' 0x1A4
                        (fs_one ''/p/flake.nix'' ''AAAABBBB'' 0x1A4))) ''/p/flake.nix'')
       = Some ''AAAACCCC''
   \<and> writes (snd (overwriteFileIfChanged env_ok ''/p/flake.nix'' ''AAAACCCC'' 0x1A4
                    (fs_one ''/p/flake.nix'' ''AAAABBBB'' 0x1A4)))
       = [EvTruncate ''/p/flake.nix'' 8, EvWriteAt ''/p/flake.nix'' 4 ''CCCC'']"
    by simp
  from overwriteFileIfChanged_reconciles
         [OF f [of "''AAAABBBB''"] op, where data = "''AAAA''" and perm = "0x1A4"] ok st w
  have two: "fst (overwriteFileIfChanged env_ok ''/p/flake.nix'' ''AAAA'' 0x1A4
          (fs_one ''/p/flake.nix'' ''AAAABBBB'' 0x1A4)) = None
   \<and> map_option content
         (files (snd (overwriteFileIfChanged env_ok ''/p/flake.nix'' ''AAAA'' 0x1A4
                        (fs_one ''/p/flake.nix'' ''AAAABBBB'' 0x1A4))) ''/p/flake.nix'')
       = Some ''AAAA''
   \<and> writes (snd (overwriteFileIfChanged env_ok ''/p/flake.nix'' ''AAAA'' 0x1A4
                    (fs_one ''/p/flake.nix'' ''AAAABBBB'' 0x1A4)))
       = [EvTruncate ''/p/flake.nix'' 4, EvWriteAt ''/p/flake.nix'' 0 ''AAAA'']"
    by simp
  from overwriteFileIfChanged_reconciles
         [OF f [of "''AB''"] op', where data = "''ABCD''" and perm = "0x1A4"] ok' st' fm'
  have three: "map_option content
         (files (snd (overwriteFileIfChanged env_stat_fails ''/p/flake.nix'' ''ABCD'' 0x1A4
                        (fs_one ''/p/flake.nix'' ''AB'' 0x1A4))) ''/p/flake.nix'')
       = Some ''ABCD''"
    by simp
  from one two three show ?thesis by blast
qed

section \<open>Properties of the manifest reader and the priority\<close>

lemma max_loop_fold:
  "sint (max_loop mx es) = fold max (map (\<lambda>e. sint (Priority e)) es) (sint mx)"
proof (induction es arbitrary: mx)
  case Nil
  show ?case by simp
next
  case (Cons e es)
  have "sint (if sint mx < sint (Priority e) then Priority e else mx)
          = max (sint (Priority e)) (sint mx)"
    by (simp add: max_def)
  with Cons.IH [of "if sint mx < sint (Priority e) then Priority e else mx"]
  show ?case by simp
qed

lemma max_loop_Max:
  "sint (max_loop mx es) = Max (insert (sint mx) (sint ` Priority ` set es))"
proof -
  have "insert (sint mx) (sint ` Priority ` set es)
          = set (sint mx # map (\<lambda>e. sint (Priority e)) es)"
    by (simp add: image_image)
  then show ?thesis
    by (simp only: max_loop_fold Max.set_eq_fold)
qed

lemma sint_succ:
  fixes w :: int64
  assumes "sint w < 2 ^ 63 - 1"
  shows "sint (w + 1) = sint w + 1"
proof -
  have lo: "- (2 ^ 63) \<le> sint w" using sint_ge [of w] by simp
  have "sint (w + 1) = signed_take_bit 63 (sint w + 1)"
    by (simp add: sint_word_ariths)
  also have "\<dots> = sint w + 1"
    using lo assms by (intro signed_take_bit_int_eq_self) simp_all
  finally show ?thesis .
qed

lemma max_loop_below:
  assumes "\<forall>e\<in>set es. sint (Priority e) < b" "sint mx < b"
  shows "sint (max_loop mx es) < b"
  using assms by (simp add: max_loop_Max)

lemma decode_element_priority_object:
  "in_int64 p \<Longrightarrow> decode_element z (priority_object p) = Inr \<lparr>Priority = word_of_int p\<rparr>"
  by (simp add: decode_element_def decode_struct_def priority_object_def match_field_def
        decode_int_def in_int64_def)

lemma decode_items_priority_objects:
  "\<forall>p\<in>set ps. in_int64 p \<Longrightarrow>
   decode_items backing (map priority_object ps)
     = Inr (map (\<lambda>p. \<lparr>Priority = word_of_int p\<rparr>) ps)"
  by (induction ps arbitrary: backing) (simp_all add: decode_element_priority_object)

lemma update_fresh: "k \<notin> fst ` set al \<Longrightarrow> AList.update k v al = al @ [(k, v)]"
  by (induction al) auto

lemma decode_entries_priority_objects:
  "\<forall>p\<in>snd ` set kps. in_int64 p \<Longrightarrow> distinct (map fst kps) \<Longrightarrow>
   fst ` set kps \<inter> fst ` set acc = {} \<Longrightarrow>
   decode_entries acc (map (\<lambda>(k, p). (k, priority_object p)) kps)
     = Inr (acc @ map (\<lambda>(k, p). (k, \<lparr>Priority = word_of_int p\<rparr>)) kps)"
proof (induction kps arbitrary: acc)
  case Nil
  show ?case by simp
next
  case (Cons kp kps)
  obtain k p where kp: "kp = (k, p)" by (cases kp)
  from Cons.prems kp have fresh: "k \<notin> fst ` set acc" and p: "in_int64 p" by auto
  have "fst ` set kps \<inter> fst ` set (acc @ [(k, \<lparr>Priority = word_of_int p\<rparr>)]) = {}"
    using Cons.prems kp by auto
  from Cons.IH [OF _ _ this] Cons.prems kp
  have "decode_entries (acc @ [(k, \<lparr>Priority = word_of_int p\<rparr>)])
          (map (\<lambda>(k, p). (k, priority_object p)) kps)
        = Inr ((acc @ [(k, \<lparr>Priority = word_of_int p\<rparr>)])
               @ map (\<lambda>(k, p). (k, \<lparr>Priority = word_of_int p\<rparr>)) kps)"
    by simp
  then show ?case
    using kp p by (simp add: decode_element_priority_object update_fresh [OF fresh])
qed

lemma elements_selects [simp]: "match_field ''elements'' ''elements''"
  by (simp add: match_field_def)

lemma Unmarshal_legacy_legacy_doc:
  "\<forall>p\<in>set ps. in_int64 p \<Longrightarrow>
   Unmarshal_legacy (Some (legacy_doc ps)) = Inr (map (\<lambda>p. \<lparr>Priority = word_of_int p\<rparr>) ps)"
  by (simp add: Unmarshal_legacy_def legacy_doc_def decode_struct_def decode_slice_def
        decode_items_priority_objects)

lemma Unmarshal_modern_modern_doc:
  "\<forall>p\<in>snd ` set kps. in_int64 p \<Longrightarrow> distinct (map fst kps) \<Longrightarrow>
   Unmarshal_modern (Some (modern_doc kps))
     = Inr (map (\<lambda>(k, p). (k, \<lparr>Priority = word_of_int p\<rparr>)) kps)"
  using decode_entries_priority_objects [of kps "[]"]
  by (simp add: Unmarshal_modern_def modern_doc_def decode_struct_def decode_map_def)

lemma Unmarshal_modern_legacy_doc:
  "Unmarshal_modern (Some (legacy_doc ps)) = Inl UnmarshalTypeError"
  by (simp add: Unmarshal_modern_def legacy_doc_def decode_struct_def decode_map_def)

lemma Unmarshal_legacy_modern_doc:
  "Unmarshal_legacy (Some (modern_doc kps)) = Inl UnmarshalTypeError"
  by (simp add: Unmarshal_legacy_def modern_doc_def decode_struct_def decode_slice_def)

text \<open>The three outcomes of \<open>readManifest\<close> once the file has been read.\<close>

lemma readManifest_modern:
  assumes "ReadFile env (filepath_Join [p, ''manifest.json'']) = Inr data"
    and "Unmarshal_modern data = Inr mm"
  shows "readManifest env p
           = (\<lparr>Elements = map (\<lambda>(k, e). \<lparr>Priority = Priority e\<rparr>) (range_order env mm)\<rparr>, None)"
  using assms by (simp add: readManifest_def)

lemma readManifest_legacy:
  assumes "ReadFile env (filepath_Join [p, ''manifest.json'']) = Inr data"
    and "Unmarshal_modern data = Inl err0" and "Unmarshal_legacy data = Inr lm"
  shows "readManifest env p = (\<lparr>Elements = map (\<lambda>e. \<lparr>Priority = Priority e\<rparr>) lm\<rparr>, None)"
  using assms by (simp add: readManifest_def)

lemma readManifest_undecodable:
  assumes "ReadFile env (filepath_Join [p, ''manifest.json'']) = Inr data"
    and "Unmarshal_modern data = Inl err0" and "Unmarshal_legacy data = Inl err"
  shows "readManifest env p = (\<lparr>Elements = []\<rparr>, Some (JsonError err))"
  using assms by (simp add: readManifest_def)

lemma nextPriority_cong_mset:
  assumes "mset (Elements (fst (readManifest env p))) = mset (Elements (fst (readManifest env' p')))"
  shows "nextPriority env p = nextPriority env' p'"
proof -
  from assms have "set (Elements (fst (readManifest env p))) = set (Elements (fst (readManifest env' p')))"
    by (rule mset_eq_setD)
  then have "sint (max_loop DefaultPriority (Elements (fst (readManifest env p))))
           = sint (max_loop DefaultPriority (Elements (fst (readManifest env' p'))))"
    by (simp add: max_loop_Max)
  then have "max_loop DefaultPriority (Elements (fst (readManifest env p)))
           = max_loop DefaultPriority (Elements (fst (readManifest env' p')))"
    by (rule signed_word_eqI)
  then show ?thesis by (simp add: nextPriority_def)
qed

subsection \<open>The example profiles\<close>

lemmas path_eval = filepath_Join_def filepath_Clean_def clean_step_def

lemma example_reads:
  "ReadFile example_env (filepath_Join [''/legacy'', ''manifest.json'']) = Inr (Some (legacy_doc [5, 9]))"
  "ReadFile example_env (filepath_Join [''/modern'', ''manifest.json''])
     = Inr (Some (modern_doc [(''a'', 5), (''b'', 9)]))"
  "ReadFile example_env (filepath_Join [''/three'', ''manifest.json'']) = Inr (Some (legacy_doc [5, 7, 3]))"
  "ReadFile example_env (filepath_Join [''/huge'', ''manifest.json''])
     = Inr (Some (legacy_doc [9223372036854775807]))"
  "ReadFile example_env (filepath_Join [''/broken'', ''manifest.json'']) = Inr None"
  "ReadFile example_env (filepath_Join [''/locked'', ''manifest.json'']) = Inl EACCES"
  "ReadFile example_env (filepath_Join [''/bare'', ''manifest.json''])
     = Inr (Some (JObject [(''version'', JNumber (IntLit 2))]))"
  "ReadFile example_env (filepath_Join [''/null'', ''manifest.json''])
     = Inr (Some (JObject [(''elements'', JNull)]))"
  "ReadFile example_env (filepath_Join [''/fresh'', ''manifest.json'']) = Inl ENOENT"
  "ReadFile example_env (filepath_Join [''/typed'', ''manifest.json''])
     = Inr (Some (JObject [(''elements'', JObject [(''a'', JObject [(''priority'', JString ''high'')])])]))"
  "ReadFile example_env (filepath_Join [''/upper'', ''manifest.json''])
     = Inr (Some (JObject [(''Elements'', JObject [(''a'', JObject [(''priority'', JNumber (IntLit 9))])])]))"
  "ReadFile example_env (filepath_Join [''/twice'', ''manifest.json''])
     = Inr (Some (JObject [(''elements'', JArray [priority_object 9, priority_object 7]),
                           (''elements'', JArray [JObject []])]))"
  by (simp_all add: example_env_def example_files_def path_eval)

lemma example_permutation: "range_is_permutation example_env"
  by (simp add: range_is_permutation_def example_env_def)


lemma in_int64_examples: "in_int64 5" "in_int64 7" "in_int64 3" "in_int64 9"
  "in_int64 9223372036854775807"
  by (simp_all add: in_int64_def)

lemma readManifest_fresh: "readManifest example_env ''/fresh'' = (\<lparr>Elements = []\<rparr>, None)"
  by (simp add: readManifest_def example_reads is_ErrNotExist_def)

lemma readManifest_three:
  "readManifest example_env ''/three''
     = (\<lparr>Elements = [\<lparr>Priority = 5\<rparr>, \<lparr>Priority = 7\<rparr>, \<lparr>Priority = 3\<rparr>]\<rparr>, None)"
  by (simp add: readManifest_def example_reads Unmarshal_modern_legacy_doc
        Unmarshal_legacy_legacy_doc in_int64_examples)

lemma readManifest_huge:
  "readManifest example_env ''/huge'' = (\<lparr>Elements = [\<lparr>Priority = 9223372036854775807\<rparr>]\<rparr>, None)"
  by (simp add: readManifest_def example_reads Unmarshal_modern_legacy_doc
        Unmarshal_legacy_legacy_doc in_int64_examples)

lemma nextPriority_three: "nextPriority example_env ''/three'' = ''8''"
  by (simp add: nextPriority_def readManifest_three DefaultPriority_def fmt_d_def digit_char_def)

lemma readManifest_modern_example:
  "readManifest example_env ''/modern'' = (\<lparr>Elements = [\<lparr>Priority = 9\<rparr>, \<lparr>Priority = 5\<rparr>]\<rparr>, None)"
proof -
  have "Unmarshal_modern (Some (modern_doc [(''a'', 5), (''b'', 9)]))
          = Inr [(''a'', \<lparr>Priority = 5\<rparr>), (''b'', \<lparr>Priority = 9\<rparr>)]"
    using Unmarshal_modern_modern_doc [of "[(''a'', 5), (''b'', 9)]"]
    by (simp add: in_int64_examples)
  from readManifest_modern [OF example_reads(2) this] show ?thesis
    by (simp add: example_env_def)
qed

lemma nextPriority_modern_example: "nextPriority example_env ''/modern'' = ''10''"
  by (simp add: nextPriority_def readManifest_modern_example DefaultPriority_def fmt_d_def
        digit_char_def)

text \<open>A key that differs from \<^verbatim>\<open>elements\<close> in letter case selects the field.\<close>

lemma readManifest_upper:
  "readManifest example_env ''/upper'' = (\<lparr>Elements = [\<lparr>Priority = 9\<rparr>]\<rparr>, None)"
proof -
  have "Unmarshal_modern (Some (JObject [(''Elements'',
            JObject [(''a'', JObject [(''priority'', JNumber (IntLit 9))])])]))
          = Inr [(''a'', \<lparr>Priority = 9\<rparr>)]"
    by (simp add: Unmarshal_modern_def decode_struct_def decode_map_def decode_element_def
          decode_int_def match_field_def asciiUpper_def)
  from readManifest_modern [OF example_reads(11) this] show ?thesis
    by (simp add: example_env_def)
qed

lemma nextPriority_upper: "nextPriority example_env ''/upper'' = ''10''"
  by (simp add: nextPriority_def readManifest_upper DefaultPriority_def fmt_d_def digit_char_def)

text \<open>
  A key that occurs twice is decoded twice into the same field. In the legacy shape the
  second array is decoded into the slice that the first one left: its one element, an
  empty object, keeps the priority 9 decoded before, and the slice is cut to one element.
\<close>

lemma Unmarshal_legacy_twice:
  "Unmarshal_legacy (Some (JObject [(''elements'', JArray [priority_object 9, priority_object 7]),
                                   (''elements'', JArray [JObject []])]))
     = Inr [\<lparr>Priority = 9\<rparr>]"
  by (simp add: Unmarshal_legacy_def decode_struct_def decode_slice_def decode_element_def
        decode_int_def priority_object_def match_field_def)

lemma Unmarshal_modern_twice:
  "Unmarshal_modern (Some (JObject [(''elements'', JArray [priority_object 9, priority_object 7]),
                                   (''elements'', JArray [JObject []])]))
     = Inl UnmarshalTypeError"
  by (simp add: Unmarshal_modern_def decode_struct_def decode_map_def)

lemma readManifest_twice:
  "readManifest example_env ''/twice'' = (\<lparr>Elements = [\<lparr>Priority = 9\<rparr>]\<rparr>, None)"
  using readManifest_legacy [OF example_reads(12) Unmarshal_modern_twice Unmarshal_legacy_twice]
  by simp

lemma nextPriority_twice: "nextPriority example_env ''/twice'' = ''10''"
  by (simp add: nextPriority_def readManifest_twice DefaultPriority_def fmt_d_def digit_char_def)

lemma sint_word_of_int64: "in_int64 p \<Longrightarrow> sint (word_of_int p :: int64) = p"
  by (simp add: in_int64_def sint_sbintrunc' signed_take_bit_int_eq_self)

lemma priorities_of_legacy:
  assumes "\<forall>q\<in>set ps. in_int64 q"
  shows "map (\<lambda>e. sint (Priority e)) (map (\<lambda>e. \<lparr>Priority = Priority e\<rparr>)
           (map (\<lambda>p. \<lparr>Priority = word_of_int p\<rparr>) ps)) = ps"
  using assms by (induction ps) (simp_all add: sint_word_of_int64)

lemma decode_fields_null:
  assumes "\<forall>(k, v)\<in>set kvs. match_field ''elements'' k \<longrightarrow> v = JNull"
  shows "cur = [] \<Longrightarrow> decode_fields ''elements'' decode_map cur kvs = Inr []"
  using assms by (induction kvs) (auto simp: decode_map_def)

lemma readManifest_error_empty:
  "snd (readManifest env p) = Some err \<Longrightarrow> fst (readManifest env p) = \<lparr>Elements = []\<rparr>"
  by (auto simp: readManifest_def split: sum.splits if_splits)

lemma nextPriority_empty:
  "fst (readManifest env p) = \<lparr>Elements = []\<rparr> \<Longrightarrow> nextPriority env p = ''6''"
  by (simp add: nextPriority_def DefaultPriority_def fmt_d_def digit_char_def)

lemma ProfileInstall_unguarded:
  assumes "IsInsecureAllowed env \<or> \<not> PackageIsInsecure env (Installable args)"
  shows "ProfileInstall env args
           = (map_option ExitError (Run env (install_cmd args (nextPriority env (ProfilePath args)))),
              [install_cmd args (nextPriority env (ProfilePath args))])"
  using assms by (auto simp: ProfileInstall_def install_cmd_def Let_def)

lemma sublist_joinSpace: "v \<in> set vs \<Longrightarrow> sublist v (joinSpace vs)"
proof (induction vs)
  case Nil
  then show ?case by simp
next
  case (Cons x xs)
  show ?case
  proof (cases "xs = []")
    case True
    with Cons.prems show ?thesis by simp
  next
    case False
    show ?thesis
    proof (cases "v = x")
      case True
      have "sublist x ([] @ x @ ('' '' @ joinSpace xs))" by (rule sublist_appendI)
      with True False show ?thesis by simp
    next
      case neq: False
      with Cons have "sublist v (joinSpace xs)" by simp
      then obtain ps ss where "joinSpace xs = ps @ v @ ss" by (auto simp: sublist_def)
      then have "joinSpace (x # xs) = (x @ '' '' @ ps) @ v @ ss" using False by simp
      then show ?thesis unfolding sublist_def by blast
    qed
  qed
qed

lemma sublist_trans': "sublist a b \<Longrightarrow> sublist b c \<Longrightarrow> sublist a c"
  by (rule sublist_order.order_trans)

lemma sublist_mid: "sublist xs (ps @ xs @ ss)"
  by (rule sublist_appendI)

subsection \<open>The next priority\<close>

text \<open>
  Claim C6, as amended. For every manifest read whose priorities are all below the
  largest \<^verbatim>\<open>int\<close>, \<open>2\<^sup>6\<^sup>3 - 1\<close>, \<^verbatim>\<open>nextPriority\<close> returns the decimal text of the
  maximum of the priorities and \<^verbatim>\<open>DefaultPriority\<close> (the constant 5), plus one: 6 on an
  empty manifest, 8 on the priorities 5, 7, 3.
\<close>

theorem nextPriority_max_plus_one:
  assumes "fst (readManifest env profilePath) = m"
    and "\<forall>e\<in>set (Elements m). sint (Priority e) < 2 ^ 63 - 1"
  shows "nextPriority env profilePath
           = fmt_d (Max (insert 5 (sint ` Priority ` set (Elements m))) + 1)"
proof -
  have "sint (max_loop DefaultPriority (Elements m)) < 2 ^ 63 - 1"
    using assms(2) by (intro max_loop_below) (simp_all add: DefaultPriority_def)
  then have "sint (max_loop DefaultPriority (Elements m) + 1)
               = sint (max_loop DefaultPriority (Elements m)) + 1"
    by (rule sint_succ)
  also have "sint (max_loop DefaultPriority (Elements m))
               = Max (insert 5 (sint ` Priority ` set (Elements m)))"
    by (simp add: max_loop_Max DefaultPriority_def)
  finally show ?thesis using assms(1) by (simp add: nextPriority_def)
qed

theorem nextPriority_max_plus_one_witness:
  "nextPriority example_env ''/fresh'' = ''6'' \<and> nextPriority example_env ''/three'' = ''8''"
proof -
  have a: "fst (readManifest example_env ''/fresh'') = \<lparr>Elements = []\<rparr>"
    by (simp add: readManifest_fresh)
  have b: "fst (readManifest example_env ''/three'')
             = \<lparr>Elements = [\<lparr>Priority = 5\<rparr>, \<lparr>Priority = 7\<rparr>, \<lparr>Priority = 3\<rparr>]\<rparr>"
    by (simp add: readManifest_three)
  have a': "\<forall>e\<in>set (Elements \<lparr>Elements = []\<rparr>). sint (Priority e) < 2 ^ 63 - 1" by simp
  have b': "\<forall>e\<in>set (Elements \<lparr>Elements = [\<lparr>Priority = 5\<rparr>, \<lparr>Priority = 7\<rparr>, \<lparr>Priority = 3\<rparr>]\<rparr>).
             sint (Priority e) < 2 ^ 63 - 1" by simp
  show ?thesis
    using nextPriority_max_plus_one [OF a a'] nextPriority_max_plus_one [OF b b']
    by (simp add: fmt_d_def digit_char_def)
qed

text \<open>
  The claim as stated, for every manifest, fails at the largest \<^verbatim>\<open>int\<close>: the manifest is
  decoded, the maximum is \<open>2\<^sup>6\<^sup>3 - 1\<close>, and the addition wraps around to \<open>- 2\<^sup>6\<^sup>3\<close>.
\<close>

theorem nextPriority_wraps_at_max_int:
  "fst (readManifest example_env ''/huge'') = \<lparr>Elements = [\<lparr>Priority = 9223372036854775807\<rparr>]\<rparr>
   \<and> sint (9223372036854775807 :: int64) = 9223372036854775807
   \<and> nextPriority example_env ''/huge'' = ''-9223372036854775808''
   \<and> nextPriority example_env ''/huge'' \<noteq> fmt_d (max 9223372036854775807 5 + 1)"
  by (simp add: nextPriority_def readManifest_huge DefaultPriority_def fmt_d_def digit_char_def)

subsection \<open>Missing and unreadable manifests\<close>

text \<open>
  Claim C7. When reading the manifest file fails because the file does not exist,
  \<^verbatim>\<open>readManifest\<close> returns an empty manifest and no error; when the read fails with any
  other error (permission denied, for one), it returns that error to its caller.
\<close>

theorem readManifest_missing_or_unreadable:
  "(ReadFile env (filepath_Join [profilePath, ''manifest.json'']) = Inl err \<and> is_ErrNotExist err
      \<longrightarrow> readManifest env profilePath = (\<lparr>Elements = []\<rparr>, None))
   \<and> (ReadFile env (filepath_Join [profilePath, ''manifest.json'']) = Inl err \<and> \<not> is_ErrNotExist err
      \<longrightarrow> readManifest env profilePath = (\<lparr>Elements = []\<rparr>, Some (OsError err)))"
  by (simp add: readManifest_def)

theorem readManifest_missing_or_unreadable_witness:
  "readManifest example_env ''/fresh'' = (\<lparr>Elements = []\<rparr>, None)
   \<and> readManifest example_env ''/locked'' = (\<lparr>Elements = []\<rparr>, Some (OsError EACCES))"
  using readManifest_missing_or_unreadable [of example_env "''/fresh''" ENOENT]
    readManifest_missing_or_unreadable [of example_env "''/locked''" EACCES]
  by (simp add: example_reads is_ErrNotExist_def)

subsection \<open>The two shapes of a manifest\<close>

lemma shapes_equivalent:
  assumes perm: "range_is_permutation env"
    and leg: "ReadFile env (filepath_Join [p, ''manifest.json'']) = Inr (Some (legacy_doc ps))"
    and mod: "ReadFile env (filepath_Join [p', ''manifest.json'']) = Inr (Some (modern_doc kps))"
    and keys: "distinct (map fst kps)" and rng: "\<forall>q\<in>set ps. in_int64 q"
    and same: "mset (map snd kps) = mset ps"
  shows "snd (readManifest env p) = None" and "snd (readManifest env p') = None"
    and "mset (Elements (fst (readManifest env p))) = mset (Elements (fst (readManifest env p')))"
    and "mset (map (\<lambda>e. sint (Priority e)) (Elements (fst (readManifest env p)))) = mset ps"
    and "nextPriority env p = nextPriority env p'"
proof -
  let ?el = "\<lambda>q. \<lparr>Priority = word_of_int q :: int64\<rparr>"
  let ?mm = "map (\<lambda>(k, q). (k, ?el q)) kps"
  have "set (map snd kps) = set ps" using same by (rule mset_eq_setD)
  then have rng': "\<forall>q\<in>snd ` set kps. in_int64 q" using rng by auto
  have l: "readManifest env p = (\<lparr>Elements = map (\<lambda>e. \<lparr>Priority = Priority e\<rparr>) (map ?el ps)\<rparr>, None)"
    by (rule readManifest_legacy [OF leg Unmarshal_modern_legacy_doc Unmarshal_legacy_legacy_doc [OF rng]])
  have m: "readManifest env p'
             = (\<lparr>Elements = map (\<lambda>(k, e). \<lparr>Priority = Priority e\<rparr>) (range_order env ?mm)\<rparr>, None)"
    by (rule readManifest_modern [OF mod Unmarshal_modern_modern_doc [OF rng' keys]])
  have le: "Elements (fst (readManifest env p)) = map ?el ps"
    using l by (simp add: comp_def)
  have "mset (map (\<lambda>(k, e). \<lparr>Priority = Priority e\<rparr>) (range_order env ?mm))
          = image_mset (\<lambda>(k, e). \<lparr>Priority = Priority e\<rparr>) (mset ?mm)"
    using perm by (simp add: range_is_permutation_def)
  also have "\<dots> = image_mset ?el (mset (map snd kps))"
    by (simp add: image_mset.compositionality comp_def case_prod_beta)
  also have "\<dots> = mset (map ?el ps)"
    using same by simp
  finally have me: "mset (Elements (fst (readManifest env p'))) = mset (map ?el ps)"
    using m by simp
  show "snd (readManifest env p) = None" using l by simp
  show "snd (readManifest env p') = None" using m by simp
  show eq: "mset (Elements (fst (readManifest env p))) = mset (Elements (fst (readManifest env p')))"
    using le me by simp
  show "mset (map (\<lambda>e. sint (Priority e)) (Elements (fst (readManifest env p)))) = mset ps"
    using l priorities_of_legacy [OF rng] by simp
  show "nextPriority env p = nextPriority env p'"
    by (rule nextPriority_cong_mset [OF eq])
qed

text \<open>
  Claim C5. Once the file is read, \<^verbatim>\<open>readManifest\<close> decodes the modern shape first:
  when that decode succeeds its entries are the result, whatever the legacy decode would
  give. The legacy decode is consulted only when the modern decode has failed, that is,
  has returned an error (of syntax or of type), and its entries are then the result;
  when both decodes fail the error of the legacy decode is returned. The modern decode of a manifest in the legacy shape fails
  outright. A legacy manifest and a modern manifest (with distinct identifiers,
  iterated in any order) that carry the same multiset of priorities, all of them in the
  range of \<^verbatim>\<open>int\<close>, are both read without error and give manifests with the same multiset
  of elements, the priorities written, and the same next priority.
\<close>

theorem readManifest_modern_then_legacy:
  "(ReadFile env (filepath_Join [p, ''manifest.json'']) = Inr data \<longrightarrow>
      (Unmarshal_modern data = Inr mm \<longrightarrow>
         readManifest env p
           = (\<lparr>Elements = map (\<lambda>(k, e). \<lparr>Priority = Priority e\<rparr>) (range_order env mm)\<rparr>, None))
    \<and> (Unmarshal_modern data = Inl err0 \<and> Unmarshal_legacy data = Inr lm \<longrightarrow>
         readManifest env p = (\<lparr>Elements = map (\<lambda>e. \<lparr>Priority = Priority e\<rparr>) lm\<rparr>, None))
    \<and> (Unmarshal_modern data = Inl err0 \<and> Unmarshal_legacy data = Inl err \<longrightarrow>
         readManifest env p = (\<lparr>Elements = []\<rparr>, Some (JsonError err))))
   \<and> Unmarshal_modern (Some (legacy_doc ps)) = Inl UnmarshalTypeError
   \<and> (range_is_permutation env
       \<and> ReadFile env (filepath_Join [p, ''manifest.json'']) = Inr (Some (legacy_doc ps))
       \<and> ReadFile env (filepath_Join [p', ''manifest.json'']) = Inr (Some (modern_doc kps))
       \<and> distinct (map fst kps) \<and> (\<forall>q\<in>set ps. in_int64 q) \<and> mset (map snd kps) = mset ps \<longrightarrow>
         snd (readManifest env p) = None \<and> snd (readManifest env p') = None
       \<and> mset (Elements (fst (readManifest env p))) = mset (Elements (fst (readManifest env p')))
       \<and> mset (map (\<lambda>e. sint (Priority e)) (Elements (fst (readManifest env p)))) = mset ps
       \<and> nextPriority env p = nextPriority env p')"
proof -
  have a: "ReadFile env (filepath_Join [p, ''manifest.json'']) = Inr data \<longrightarrow>
      (Unmarshal_modern data = Inr mm \<longrightarrow>
         readManifest env p
           = (\<lparr>Elements = map (\<lambda>(k, e). \<lparr>Priority = Priority e\<rparr>) (range_order env mm)\<rparr>, None))
    \<and> (Unmarshal_modern data = Inl err0 \<and> Unmarshal_legacy data = Inr lm \<longrightarrow>
         readManifest env p = (\<lparr>Elements = map (\<lambda>e. \<lparr>Priority = Priority e\<rparr>) lm\<rparr>, None))
    \<and> (Unmarshal_modern data = Inl err0 \<and> Unmarshal_legacy data = Inl err \<longrightarrow>
         readManifest env p = (\<lparr>Elements = []\<rparr>, Some (JsonError err)))"
    by (simp add: readManifest_def)
  have c: "snd (readManifest env p) = None \<and> snd (readManifest env p') = None
       \<and> mset (Elements (fst (readManifest env p))) = mset (Elements (fst (readManifest env p')))
       \<and> mset (map (\<lambda>e. sint (Priority e)) (Elements (fst (readManifest env p)))) = mset ps
       \<and> nextPriority env p = nextPriority env p'"
    if "range_is_permutation env"
      "ReadFile env (filepath_Join [p, ''manifest.json'']) = Inr (Some (legacy_doc ps))"
      "ReadFile env (filepath_Join [p', ''manifest.json'']) = Inr (Some (modern_doc kps))"
      "distinct (map fst kps)" "\<forall>q\<in>set ps. in_int64 q" "mset (map snd kps) = mset ps"
    using shapes_equivalent [OF that] by simp
  from a c Unmarshal_modern_legacy_doc [of ps] show ?thesis by blast
qed

text \<open>
  The specification's example: priorities 5 and 9 in either shape; a file that is not a
  JSON text; and a manifest in the modern shape whose priority is a string, which both
  decodes reject.
\<close>

theorem readManifest_modern_then_legacy_witness:
  "readManifest example_env ''/broken'' = (\<lparr>Elements = []\<rparr>, Some (JsonError SyntaxError))
   \<and> readManifest example_env ''/typed'' = (\<lparr>Elements = []\<rparr>, Some (JsonError UnmarshalTypeError))
   \<and> snd (readManifest example_env ''/legacy'') = None
   \<and> snd (readManifest example_env ''/modern'') = None
   \<and> mset (Elements (fst (readManifest example_env ''/legacy'')))
       = mset (Elements (fst (readManifest example_env ''/modern'')))
   \<and> mset (map (\<lambda>e. sint (Priority e)) (Elements (fst (readManifest example_env ''/legacy''))))
       = mset [5, 9]
   \<and> nextPriority example_env ''/legacy'' = nextPriority example_env ''/modern''
   \<and> nextPriority example_env ''/modern'' = ''10''"
proof -
  have bad: "Unmarshal_modern None = Inl SyntaxError \<and> Unmarshal_legacy None = Inl SyntaxError"
    by (simp add: Unmarshal_modern_def Unmarshal_legacy_def)
  have hyp: "range_is_permutation example_env
       \<and> ReadFile example_env (filepath_Join [''/legacy'', ''manifest.json'']) = Inr (Some (legacy_doc [5, 9]))
       \<and> ReadFile example_env (filepath_Join [''/modern'', ''manifest.json''])
           = Inr (Some (modern_doc [(''a'', 5), (''b'', 9)]))
       \<and> distinct (map fst [(''a'', 5::int), (''b'', 9)]) \<and> (\<forall>q\<in>set [5, 9]. in_int64 q)
       \<and> mset (map snd [(''a'', 5::int), (''b'', 9)]) = mset [5, 9]"
    by (simp add: example_permutation example_reads in_int64_examples)
  have typed: "Unmarshal_modern (Some (JObject [(''elements'',
                   JObject [(''a'', JObject [(''priority'', JString ''high'')])])])) = Inl UnmarshalTypeError
       \<and> Unmarshal_legacy (Some (JObject [(''elements'',
                   JObject [(''a'', JObject [(''priority'', JString ''high'')])])])) = Inl UnmarshalTypeError"
    by (simp add: Unmarshal_modern_def Unmarshal_legacy_def decode_struct_def decode_map_def
          decode_slice_def decode_element_def decode_int_def match_field_def)
  have zero: "readManifest example_env ''/typed'' = (\<lparr>Elements = []\<rparr>, Some (JsonError UnmarshalTypeError))"
    using readManifest_modern_then_legacy
            [where env = example_env and p = "''/typed''" and err0 = UnmarshalTypeError
               and err = UnmarshalTypeError
               and data = "Some (JObject [(''elements'',
                   JObject [(''a'', JObject [(''priority'', JString ''high'')])])])"]
          typed example_reads(10)
    by blast
  have one: "readManifest example_env ''/broken'' = (\<lparr>Elements = []\<rparr>, Some (JsonError SyntaxError))"
    using readManifest_modern_then_legacy
            [of example_env "''/broken''" None _ SyntaxError _ SyntaxError]
          bad example_reads(5)
    by blast
  have two: "snd (readManifest example_env ''/legacy'') = None
   \<and> snd (readManifest example_env ''/modern'') = None
   \<and> mset (Elements (fst (readManifest example_env ''/legacy'')))
       = mset (Elements (fst (readManifest example_env ''/modern'')))
   \<and> mset (map (\<lambda>e. sint (Priority e)) (Elements (fst (readManifest example_env ''/legacy''))))
       = mset [5, 9]
   \<and> nextPriority example_env ''/legacy'' = nextPriority example_env ''/modern''"
    using readManifest_modern_then_legacy
            [of example_env "''/legacy''" _ _ _ _ _ "[5, 9]" "''/modern''" "[(''a'', 5), (''b'', 9)]"]
          hyp
    by blast
  from zero one two nextPriority_modern_example show ?thesis by blast
qed

subsection \<open>A manifest object without elements\<close>

text \<open>
  Claim C10 as stated fails for an object that has no key \<^verbatim>\<open>elements\<close> but a key that
  differs from it in letter case only: \<^verbatim>\<open>encoding/json\<close> selects the field by such a key
  too. The manifest \<^verbatim>\<open>{"Elements": {"a": {"priority": 9}}}\<close> decodes in the modern shape
  to one element of priority 9, and \<^verbatim>\<open>nextPriority\<close> yields 10.
\<close>

theorem elements_key_matches_in_any_case:
  "''elements'' \<notin> fst ` set [(''Elements'', JObject [(''a'', JObject [(''priority'', JNumber (IntLit 9))])])]
   \<and> ReadFile example_env (filepath_Join [''/upper'', ''manifest.json''])
       = Inr (Some (JObject [(''Elements'', JObject [(''a'', JObject [(''priority'', JNumber (IntLit 9))])])]))
   \<and> readManifest example_env ''/upper'' = (\<lparr>Elements = [\<lparr>Priority = 9\<rparr>]\<rparr>, None)
   \<and> nextPriority example_env ''/upper'' = ''10''"
  by (simp add: example_reads(11) readManifest_upper nextPriority_upper)

text \<open>
  Claim C10, as amended. When the manifest file holds a JSON object in which no member
  selects the field \<^verbatim>\<open>elements\<close> (no key equals it, also not up to letter case), or every
  member that does is \<^verbatim>\<open>null\<close>, the modern decode succeeds with no entries:
  \<^verbatim>\<open>readManifest\<close> returns an empty manifest and no error, and \<^verbatim>\<open>nextPriority\<close> yields 6,
  as it does for a missing manifest file.
\<close>

theorem readManifest_object_without_elements:
  assumes perm: "range_is_permutation env"
    and rd: "ReadFile env (filepath_Join [p, ''manifest.json'']) = Inr (Some (JObject kvs))"
    and none: "\<forall>(k, v)\<in>set kvs. match_field ''elements'' k \<longrightarrow> v = JNull"
    and missing: "ReadFile env (filepath_Join [p', ''manifest.json'']) = Inl ENOENT"
  shows "Unmarshal_modern (Some (JObject kvs)) = Inr []
       \<and> readManifest env p = (\<lparr>Elements = []\<rparr>, None)
       \<and> nextPriority env p = ''6''
       \<and> nextPriority env p' = ''6''"
proof -
  have m: "Unmarshal_modern (Some (JObject kvs)) = Inr []"
    using decode_fields_null [OF none] by (simp add: Unmarshal_modern_def decode_struct_def)
  have "mset (range_order env []) = {#}"
    using perm by (simp add: range_is_permutation_def)
  then have "range_order env [] = []" by simp
  with readManifest_modern [OF rd m] have r: "readManifest env p = (\<lparr>Elements = []\<rparr>, None)"
    by simp
  have r': "readManifest env p' = (\<lparr>Elements = []\<rparr>, None)"
    using missing by (simp add: readManifest_def is_ErrNotExist_def)
  from m r r' show ?thesis by (simp add: nextPriority_empty)
qed

theorem readManifest_object_without_elements_witness:
  "readManifest example_env ''/bare'' = (\<lparr>Elements = []\<rparr>, None)
   \<and> nextPriority example_env ''/bare'' = ''6''
   \<and> readManifest example_env ''/null'' = (\<lparr>Elements = []\<rparr>, None)
   \<and> nextPriority example_env ''/null'' = ''6''
   \<and> nextPriority example_env ''/fresh'' = ''6''"
proof -
  have a: "\<forall>(k, v)\<in>set [(''version'', JNumber (IntLit 2))]. match_field ''elements'' k \<longrightarrow> v = JNull"
    by (simp add: match_field_def asciiUpper_def)
  have b: "\<forall>(k, v)\<in>set [(''elements'', JNull)]. match_field ''elements'' k \<longrightarrow> v = JNull"
    by simp
  from readManifest_object_without_elements [OF example_permutation example_reads(7) a example_reads(9)]
       readManifest_object_without_elements [OF example_permutation example_reads(8) b example_reads(9)]
  show ?thesis by simp
qed

subsection \<open>Manifest errors and the install operation\<close>

text \<open>
  Claim C3 as stated fails: a manifest that exists but cannot be read, or cannot be
  decoded, makes \<^verbatim>\<open>readManifest\<close> return an error, and \<^verbatim>\<open>ProfileInstall\<close> still runs the
  install command, with priority 6, and returns no error.
\<close>

theorem manifest_error_is_swallowed:
  "snd (readManifest example_env ''/locked'') = Some (OsError EACCES)
   \<and> snd (readManifest example_env ''/broken'') = Some (JsonError SyntaxError)
   \<and> ProfileInstall example_env \<lparr>Installable = ''hello'', Offline = False, ProfilePath = ''/locked''\<rparr>
       = (None, [[''profile'', ''install'', ''--profile'', ''/locked'', ''--impure'',
                  ''--priority'', ''6'', ''hello'']])
   \<and> ProfileInstall example_env \<lparr>Installable = ''hello'', Offline = False, ProfilePath = ''/broken''\<rparr>
       = (None, [[''profile'', ''install'', ''--profile'', ''/broken'', ''--impure'',
                  ''--priority'', ''6'', ''hello'']])"
proof -
  have l: "readManifest example_env ''/locked'' = (\<lparr>Elements = []\<rparr>, Some (OsError EACCES))"
    by (simp add: readManifest_def example_reads is_ErrNotExist_def)
  have b: "readManifest example_env ''/broken'' = (\<lparr>Elements = []\<rparr>, Some (JsonError SyntaxError))"
    by (simp add: readManifest_def example_reads Unmarshal_modern_def Unmarshal_legacy_def)
  have "nextPriority example_env ''/locked'' = ''6''" "nextPriority example_env ''/broken'' = ''6''"
    using l b by (simp_all add: nextPriority_empty)
  then show ?thesis
    using l b by (simp add: ProfileInstall_def example_env_def)
qed

text \<open>
  Claim C3, as amended. When \<^verbatim>\<open>readManifest\<close> returns an error for the profile (the file
  exists but cannot be read or decoded), the error reaches its caller \<^verbatim>\<open>nextPriority\<close>
  and goes no further: \<^verbatim>\<open>nextPriority\<close> discards it and answers 6, the priority of an
  empty manifest, and an install that passes the guard runs the install command with that
  priority and returns the command's own result, never the manifest's error.
\<close>

theorem install_ignores_manifest_error:
  assumes err: "snd (readManifest env (ProfilePath args)) = Some err"
    and pass: "IsInsecureAllowed env \<or> \<not> PackageIsInsecure env (Installable args)"
  shows "nextPriority env (ProfilePath args) = ''6''
       \<and> ProfileInstall env args
           = (map_option ExitError (Run env (install_cmd args ''6'')), [install_cmd args ''6''])
       \<and> fst (ProfileInstall env args) \<noteq> Some (OsError e)
       \<and> fst (ProfileInstall env args) \<noteq> Some (JsonError e')"
proof -
  have six: "nextPriority env (ProfilePath args) = ''6''"
    by (rule nextPriority_empty [OF readManifest_error_empty [OF err]])
  moreover from ProfileInstall_unguarded [OF pass] six
  have "ProfileInstall env args
          = (map_option ExitError (Run env (install_cmd args ''6'')), [install_cmd args ''6''])"
    by simp
  ultimately show ?thesis by (auto simp: map_option_case split: option.splits)
qed

theorem install_ignores_manifest_error_witness:
  "nextPriority example_env ''/locked'' = ''6''
   \<and> ProfileInstall example_env \<lparr>Installable = ''hello'', Offline = True, ProfilePath = ''/locked''\<rparr>
       = (None, [[''profile'', ''install'', ''--profile'', ''/locked'', ''--impure'',
                  ''--priority'', ''6'', ''--offline'', ''hello'']])"
proof -
  let ?args = "\<lparr>Installable = ''hello'', Offline = True, ProfilePath = ''/locked''\<rparr>"
  have e: "snd (readManifest example_env (ProfilePath ?args)) = Some (OsError EACCES)"
    by (simp add: readManifest_def example_reads is_ErrNotExist_def)
  have p: "IsInsecureAllowed example_env \<or> \<not> PackageIsInsecure example_env (Installable ?args)"
    by (simp add: example_env_def)
  have r: "Run example_env c = None" for c by (simp add: example_env_def)
  from install_ignores_manifest_error [OF e p] r
  show ?thesis by (simp add: install_cmd_def)
qed

subsection \<open>The installation guard\<close>

text \<open>
  Claim C8. When the installable is flagged insecure and insecure packages are not
  allowed, \<^verbatim>\<open>ProfileInstall\<close> returns a user error without having run any command; the
  message contains the installable, contains the list of known vulnerabilities (and so
  each of them) when the list is not empty, and contains the override instruction.
  When insecure packages are allowed, no user error is returned: the install command is
  run and its result returned.
\<close>

theorem insecure_package_is_blocked:
  "(\<not> IsInsecureAllowed env \<and> PackageIsInsecure env (Installable args) \<longrightarrow>
      (\<exists>msg. ProfileInstall env args = (Some (UserError msg), [])
         \<and> sublist (Installable args) msg
         \<and> (PackageKnownVulnerabilities env (Installable args) \<noteq> [] \<longrightarrow>
              sublist (fmt_s_list (PackageKnownVulnerabilities env (Installable args))) msg
            \<and> (\<forall>v\<in>set (PackageKnownVulnerabilities env (Installable args)). sublist v msg))
         \<and> sublist override_hint msg))
   \<and> (IsInsecureAllowed env \<longrightarrow>
        ProfileInstall env args
          = (map_option ExitError (Run env (install_cmd args (nextPriority env (ProfilePath args)))),
             [install_cmd args (nextPriority env (ProfilePath args))])
      \<and> (\<forall>msg. fst (ProfileInstall env args) \<noteq> Some (UserError msg)))"
proof -
  let ?inst = "Installable args"
  let ?kv = "PackageKnownVulnerabilities env ?inst"
  let ?head = "''Package '' @ ?inst @ '' is insecure. '' @ [CHR 0x0A, CHR 0x0A]"
  let ?mid = "if length ?kv > 0
              then ''Known vulnerabilities: '' @ fmt_s_list ?kv @ '' '' @ [CHR 0x0A, CHR 0x0A] else []"
  let ?msg = "?head @ ?mid @ override_hint"
  have blocked: "\<exists>msg. ProfileInstall env args = (Some (UserError msg), [])
         \<and> sublist ?inst msg
         \<and> (?kv \<noteq> [] \<longrightarrow> sublist (fmt_s_list ?kv) msg \<and> (\<forall>v\<in>set ?kv. sublist v msg))
         \<and> sublist override_hint msg"
    if g: "\<not> IsInsecureAllowed env" "PackageIsInsecure env ?inst"
  proof (intro exI conjI)
    show "ProfileInstall env args = (Some (UserError ?msg), [])"
      using g by (simp add: ProfileInstall_def Let_def override_hint_def)
    have "sublist ?inst (''Package '' @ ?inst @ ('' is insecure. '' @ [CHR 0x0A, CHR 0x0A] @ ?mid @ override_hint))"
      by (rule sublist_mid)
    then show "sublist ?inst ?msg" by simp
    have "sublist override_hint ((?head @ ?mid) @ override_hint @ [])"
      by (rule sublist_mid)
    then show "sublist override_hint ?msg" by simp
    show "?kv \<noteq> [] \<longrightarrow> sublist (fmt_s_list ?kv) ?msg \<and> (\<forall>v\<in>set ?kv. sublist v ?msg)"
    proof (intro impI conjI ballI)
      assume ne: "?kv \<noteq> []"
      have "sublist (fmt_s_list ?kv)
              ((?head @ ''Known vulnerabilities: '') @ fmt_s_list ?kv
                 @ ('' '' @ [CHR 0x0A, CHR 0x0A] @ override_hint))"
        by (rule sublist_mid)
      with ne show l: "sublist (fmt_s_list ?kv) ?msg" by simp
      fix v assume "v \<in> set ?kv"
      then have "sublist v (joinSpace ?kv)" by (rule sublist_joinSpace)
      moreover have "sublist (joinSpace ?kv) (''['' @ joinSpace ?kv @ '']'')"
        by (rule sublist_mid)
      ultimately have "sublist v (fmt_s_list ?kv)"
        unfolding fmt_s_list_def by (rule sublist_trans')
      then show "sublist v ?msg" using l by (rule sublist_trans')
    qed
  qed
  have allowed: "ProfileInstall env args
          = (map_option ExitError (Run env (install_cmd args (nextPriority env (ProfilePath args)))),
             [install_cmd args (nextPriority env (ProfilePath args))])
      \<and> (\<forall>msg. fst (ProfileInstall env args) \<noteq> Some (UserError msg))"
    if "IsInsecureAllowed env"
    using ProfileInstall_unguarded [of env args] that
    by (auto simp: map_option_case split: option.splits)
  from blocked allowed show ?thesis by blast
qed

theorem insecure_package_is_blocked_witness:
  "ProfileInstall example_env \<lparr>Installable = ''openssl-1.0'', Offline = False, ProfilePath = ''/three''\<rparr>
     = (Some (UserError (''Package openssl-1.0 is insecure. '' @ [CHR 0x0A, CHR 0x0A]
          @ ''Known vulnerabilities: [CVE-1 CVE-2] '' @ [CHR 0x0A, CHR 0x0A] @ override_hint)), [])
   \<and> (\<exists>msg. ProfileInstall example_env
               \<lparr>Installable = ''openssl-1.0'', Offline = False, ProfilePath = ''/three''\<rparr>
             = (Some (UserError msg), [])
          \<and> sublist ''openssl-1.0'' msg \<and> sublist ''[CVE-1 CVE-2]'' msg \<and> sublist ''CVE-2'' msg
          \<and> sublist override_hint msg)
   \<and> ProfileInstall (example_env\<lparr>IsInsecureAllowed := True\<rparr>)
        \<lparr>Installable = ''openssl-1.0'', Offline = False, ProfilePath = ''/three''\<rparr>
     = (None, [[''profile'', ''install'', ''--profile'', ''/three'', ''--impure'',
                ''--priority'', ''8'', ''openssl-1.0'']])"
proof -
  let ?args = "\<lparr>Installable = ''openssl-1.0'', Offline = False, ProfilePath = ''/three''\<rparr>"
  have g: "\<not> IsInsecureAllowed example_env \<and> PackageIsInsecure example_env (Installable ?args)"
    by (simp add: example_env_def)
  have kv: "PackageKnownVulnerabilities example_env (Installable ?args) = [''CVE-1'', ''CVE-2'']"
    by (simp add: example_env_def)
  have a: "IsInsecureAllowed (example_env\<lparr>IsInsecureAllowed := True\<rparr>)" by simp
  have "readManifest (example_env\<lparr>IsInsecureAllowed := True\<rparr>) ''/three''
          = readManifest example_env ''/three''"
    by (simp add: readManifest_def split: sum.splits)
  then have np: "nextPriority (example_env\<lparr>IsInsecureAllowed := True\<rparr>) ''/three'' = ''8''"
    using nextPriority_three by (simp add: nextPriority_def)
  have r: "Run (example_env\<lparr>IsInsecureAllowed := True\<rparr>) c = None" for c
    by (simp add: example_env_def)
  have one: "ProfileInstall example_env ?args
     = (Some (UserError (''Package openssl-1.0 is insecure. '' @ [CHR 0x0A, CHR 0x0A]
          @ ''Known vulnerabilities: [CVE-1 CVE-2] '' @ [CHR 0x0A, CHR 0x0A] @ override_hint)), [])"
    by (simp add: ProfileInstall_def example_env_def fmt_s_list_def override_hint_def)
  from insecure_package_is_blocked [of example_env ?args] g kv
  have two: "\<exists>msg. ProfileInstall example_env ?args = (Some (UserError msg), [])
          \<and> sublist ''openssl-1.0'' msg \<and> sublist ''[CVE-1 CVE-2]'' msg \<and> sublist ''CVE-2'' msg
          \<and> sublist override_hint msg"
    by (auto simp: fmt_s_list_def)
  from insecure_package_is_blocked [of "example_env\<lparr>IsInsecureAllowed := True\<rparr>" ?args] a np r
  have three: "ProfileInstall (example_env\<lparr>IsInsecureAllowed := True\<rparr>) ?args
     = (None, [[''profile'', ''install'', ''--profile'', ''/three'', ''--impure'',
                ''--priority'', ''8'', ''openssl-1.0'']])"
    by (simp add: install_cmd_def)
  from one two three show ?thesis by blast
qed

section \<open>Properties of the generated files\<close>

subsection \<open>Rendering before writing\<close>

text \<open>
  Claim C9. \<^verbatim>\<open>writeFromTemplate\<close> renders first and commits second. When the template
  cannot be parsed the call returns an error and changes nothing. When execution of the
  template fails, the call returns an error, the buffer holds what was rendered so far
  and the file system is exactly as before: the existing output file is not touched.
  Only when execution succeeds is the target file handed to
  \<^verbatim>\<open>overwriteFileIfChanged\<close>, with exactly the rendered bytes and mode \<^verbatim>\<open>0o644\<close>, and the
  call succeeds exactly when the synchronizer does.
\<close>

theorem render_failure_writes_nothing:
  "(lookup_template env st (tmplName @ ''.tmpl'') = Inl perr \<longrightarrow>
      writeFromTemplate env path plan tmplName generatedName st
        = (Some (Errorf ''parse embedded tmplFS glob %q: %v'' [''tmpl/'' @ tmplName @ ''.tmpl'']
                   (TemplateError perr)), st))
   \<and> (lookup_template env st (tmplName @ ''.tmpl'') = Inr tmpl \<and>
       Execute env tmpl plan = (out, Some xerr) \<longrightarrow>
        fst (writeFromTemplate env path plan tmplName generatedName st)
          = Some (Errorf ''execute template %s: %v'' [tmplName @ ''.tmpl''] (TemplateError xerr))
      \<and> disk (snd (writeFromTemplate env path plan tmplName generatedName st)) = disk st
      \<and> tmplBuf (snd (writeFromTemplate env path plan tmplName generatedName st)) = out)
   \<and> (lookup_template env st (tmplName @ ''.tmpl'') = Inr tmpl \<and>
       Execute env tmpl plan = (out, None) \<longrightarrow>
        disk (snd (writeFromTemplate env path plan tmplName generatedName st))
          = snd (overwriteFileIfChanged (os env) (filepath_Join [path, generatedName]) out 0x1A4 (disk st))
      \<and> (fst (writeFromTemplate env path plan tmplName generatedName st) = None
           \<longleftrightarrow> fst (overwriteFileIfChanged (os env) (filepath_Join [path, generatedName]) out 0x1A4
                      (disk st)) = None))"
  by (auto simp: writeFromTemplate_def lookup_template_def Let_def
           split: option.splits sum.splits prod.splits)

lemma flake_path:
  "filepath_Join [''/proj/.devbox/gen/flake'', ''flake.nix''] = ''/proj/.devbox/gen/flake/flake.nix''"
  by (simp add: filepath_Join_def filepath_Clean_def clean_step_def)

theorem render_failure_writes_nothing_witness:
  "fst (writeFromTemplate (example_gen (\<lambda>p. Some ENOENT)) ''/proj/.devbox/gen/flake'' False
          ''flake.nix'' ''flake.nix'' example_state)
     = Some (Errorf ''execute template %s: %v'' [''flake.nix.tmpl''] (TemplateError ''undefined field''))
   \<and> disk (snd (writeFromTemplate (example_gen (\<lambda>p. Some ENOENT)) ''/proj/.devbox/gen/flake'' False
          ''flake.nix'' ''flake.nix'' example_state))
     = fs_one ''/proj/.devbox/gen/flake/flake.nix'' ''AAAABBBB'' 0x1A4
   \<and> tmplBuf (snd (writeFromTemplate (example_gen (\<lambda>p. Some ENOENT)) ''/proj/.devbox/gen/flake'' False
          ''flake.nix'' ''flake.nix'' example_state)) = ''AAA''
   \<and> writeFromTemplate (example_gen (\<lambda>p. Some ENOENT)) ''/proj/.devbox/gen/flake'' False
          ''shell.nix'' ''shell.nix'' example_state
     = (Some (Errorf ''parse embedded tmplFS glob %q: %v'' [''tmpl/shell.nix.tmpl'']
                (TemplateError ''pattern matches no files'')), example_state)
   \<and> fst (writeFromTemplate (example_gen (\<lambda>p. Some ENOENT)) ''/proj/.devbox/gen/flake'' True
          ''flake.nix'' ''flake.nix'' example_state) = None
   \<and> map_option content
         (files (disk (snd (writeFromTemplate (example_gen (\<lambda>p. Some ENOENT))
            ''/proj/.devbox/gen/flake'' True ''flake.nix'' ''flake.nix'' example_state)))
          ''/proj/.devbox/gen/flake/flake.nix'') = Some ''AAAACCCC''"
proof -
  let ?env = "example_gen (\<lambda>p. Some ENOENT)"
  have l1: "lookup_template ?env example_state (''flake.nix'' @ ''.tmpl'') = Inr ''AAAACCCC''"
    by (simp add: lookup_template_def example_gen_def example_state_def)
  have l2: "lookup_template ?env example_state (''shell.nix'' @ ''.tmpl'') = Inl ''pattern matches no files''"
    by (simp add: lookup_template_def example_gen_def example_state_def)
  have x1: "Execute ?env ''AAAACCCC'' False = (''AAA'', Some ''undefined field'')"
    and x2: "Execute ?env ''AAAACCCC'' True = (''AAAACCCC'', None)"
    by (simp_all add: example_gen_def)
  have d: "disk example_state = fs_one ''/proj/.devbox/gen/flake/flake.nix'' ''AAAABBBB'' 0x1A4"
    by (simp add: example_state_def)
  have o: "os ?env = env_ok" by (simp add: example_gen_def)
  have sync: "fst (overwriteFileIfChanged env_ok ''/proj/.devbox/gen/flake/flake.nix'' ''AAAACCCC'' 0x1A4
                (fs_one ''/proj/.devbox/gen/flake/flake.nix'' ''AAAABBBB'' 0x1A4)) = None
      \<and> map_option content (files (snd (overwriteFileIfChanged env_ok
            ''/proj/.devbox/gen/flake/flake.nix'' ''AAAACCCC'' 0x1A4
            (fs_one ''/proj/.devbox/gen/flake/flake.nix'' ''AAAABBBB'' 0x1A4)))
          ''/proj/.devbox/gen/flake/flake.nix'') = Some ''AAAACCCC''"
    by (simp add: overwriteFileIfChanged_def OpenFile_def Stat_def Perm_def ReadByte_def
          overwriteFile_def Truncate_def WriteAt_def touch_def resize_def write_bytes_def
          env_ok_def fs_one_def)
  from render_failure_writes_nothing
         [where env = ?env and st = example_state and tmplName = "''flake.nix''"
            and tmpl = "''AAAACCCC''" and plan = False and out = "''AAA''"
            and xerr = "''undefined field''" and path = "''/proj/.devbox/gen/flake''"
            and generatedName = "''flake.nix''"]
       l1 x1 d
  have a: "fst (writeFromTemplate ?env ''/proj/.devbox/gen/flake'' False
          ''flake.nix'' ''flake.nix'' example_state)
     = Some (Errorf ''execute template %s: %v'' [''flake.nix.tmpl''] (TemplateError ''undefined field''))
   \<and> disk (snd (writeFromTemplate ?env ''/proj/.devbox/gen/flake'' False
          ''flake.nix'' ''flake.nix'' example_state))
     = fs_one ''/proj/.devbox/gen/flake/flake.nix'' ''AAAABBBB'' 0x1A4
   \<and> tmplBuf (snd (writeFromTemplate ?env ''/proj/.devbox/gen/flake'' False
          ''flake.nix'' ''flake.nix'' example_state)) = ''AAA''"
    by simp
  from render_failure_writes_nothing
         [where env = ?env and st = example_state and tmplName = "''shell.nix''"
            and perr = "''pattern matches no files''" and plan = False
            and path = "''/proj/.devbox/gen/flake''" and generatedName = "''shell.nix''"]
       l2
  have b: "writeFromTemplate ?env ''/proj/.devbox/gen/flake'' False
          ''shell.nix'' ''shell.nix'' example_state
     = (Some (Errorf ''parse embedded tmplFS glob %q: %v'' [''tmpl/shell.nix.tmpl'']
                (TemplateError ''pattern matches no files'')), example_state)"
    by simp
  from render_failure_writes_nothing
         [where env = ?env and st = example_state and tmplName = "''flake.nix''"
            and tmpl = "''AAAACCCC''" and plan = True and out = "''AAAACCCC''"
            and path = "''/proj/.devbox/gen/flake''" and generatedName = "''flake.nix''"]
       l1 x2 d o sync flake_path
  have c: "fst (writeFromTemplate ?env ''/proj/.devbox/gen/flake'' True
          ''flake.nix'' ''flake.nix'' example_state) = None
   \<and> map_option content
         (files (disk (snd (writeFromTemplate ?env
            ''/proj/.devbox/gen/flake'' True ''flake.nix'' ''flake.nix'' example_state)))
          ''/proj/.devbox/gen/flake/flake.nix'') = Some ''AAAACCCC''"
    by simp
  from a b c show ?thesis by blast
qed

subsection \<open>Walking up to the version-control marker\<close>

lemma walk_step:
  assumes "dir \<noteq> ''/''" "stat (filepath_Join [dir, ''.git'']) = Some err" "is_ErrNotExist err"
  shows "isProjectInGitRepo stat dir = isProjectInGitRepo stat (filepath_Dir dir)"
  using assms by (subst isProjectInGitRepo.simps) simp

lemma walk_skip:
  "not_found_below stat dir n \<Longrightarrow>
   isProjectInGitRepo stat dir = isProjectInGitRepo stat ((filepath_Dir ^^ n) dir)"
proof (induction n arbitrary: dir)
  case 0
  show ?case by simp
next
  case (Suc n)
  from Suc.prems have first: "dir \<noteq> ''/''"
    "\<exists>err. stat (filepath_Join [dir, ''.git'']) = Some err \<and> is_ErrNotExist err"
    unfolding not_found_below_def by force+
  have "not_found_below stat (filepath_Dir dir) n"
    unfolding not_found_below_def
  proof (intro allI impI)
    fix i assume "i < n"
    then have "Suc i < Suc n" by simp
    with Suc.prems have later: "(filepath_Dir ^^ Suc i) dir \<noteq> ''/'' \<and>
        (\<exists>err. stat (filepath_Join [(filepath_Dir ^^ Suc i) dir, ''.git'']) = Some err \<and> is_ErrNotExist err)"
      unfolding not_found_below_def by blast
    have shift: "(filepath_Dir ^^ Suc i) dir = (filepath_Dir ^^ i) (filepath_Dir dir)"
      by (simp add: funpow_swap1)
    from later [unfolded shift]
    show "(filepath_Dir ^^ i) (filepath_Dir dir) \<noteq> ''/'' \<and>
        (\<exists>err. stat (filepath_Join [(filepath_Dir ^^ i) (filepath_Dir dir), ''.git'']) = Some err
           \<and> is_ErrNotExist err)" .
  qed
  from Suc.IH [OF this] have "isProjectInGitRepo stat (filepath_Dir dir)
      = isProjectInGitRepo stat ((filepath_Dir ^^ Suc n) dir)"
    by (simp add: funpow_swap1)
  moreover from first obtain err where "stat (filepath_Join [dir, ''.git'']) = Some err" "is_ErrNotExist err"
    by blast
  with first(1) have "isProjectInGitRepo stat dir = isProjectInGitRepo stat (filepath_Dir dir)"
    by (rule walk_step)
  ultimately show ?case by simp
qed

lemma walk_root: "isProjectInGitRepo stat ''/'' = Some False"
  by (subst isProjectInGitRepo.simps) simp

lemma walk_found:
  "dir \<noteq> ''/'' \<Longrightarrow> stat (filepath_Join [dir, ''.git'']) = None \<Longrightarrow> isProjectInGitRepo stat dir = Some True"
  by (subst isProjectInGitRepo.simps) simp

lemma walk_other_error:
  "dir \<noteq> ''/'' \<Longrightarrow> stat (filepath_Join [dir, ''.git'']) = Some err \<Longrightarrow> \<not> is_ErrNotExist err \<Longrightarrow>
   isProjectInGitRepo stat dir = Some False"
  by (subst isProjectInGitRepo.simps) simp

lemma makeFlakeFile_not_in_repo:
  assumes "writeFromTemplate env (FlakePath env) plan
             (if RemoveNixpkgs_Enabled env then ''flake_remove_nixpkgs.nix'' else ''flake.nix'')
             ''flake.nix'' st = (None, st1)"
    and "isProjectInGitRepo (os_Stat env) outPath = Some False"
  shows "makeFlakeFile env outPath plan st = Some (None, st1, [])"
  using assms by (simp add: makeFlakeFile_def Let_def)

lemmas dir_eval = filepath_Dir_def filepath_Join_def filepath_Clean_def clean_step_def

lemma example_ancestors:
  "filepath_Dir ''/proj/.devbox/gen'' = ''/proj/.devbox''"
  "filepath_Dir ''/proj/.devbox'' = ''/proj''"
  "filepath_Dir ''/proj'' = ''/''"
  "filepath_Join [''/proj/.devbox/gen'', ''.git''] = ''/proj/.devbox/gen/.git''"
  "filepath_Join [''/proj/.devbox'', ''.git''] = ''/proj/.devbox/.git''"
  "filepath_Join [''/proj'', ''.git''] = ''/proj/.git''"
  by (simp_all add: dir_eval)

lemma example_render_ok:
  "writeFromTemplate (example_gen stat) ''/proj/.devbox/gen/flake'' True ''flake.nix'' ''flake.nix''
     example_state
   = (None, snd (writeFromTemplate (example_gen stat) ''/proj/.devbox/gen/flake'' True ''flake.nix''
                   ''flake.nix'' example_state))"
proof -
  have "fst (writeFromTemplate (example_gen stat) ''/proj/.devbox/gen/flake'' True ''flake.nix''
               ''flake.nix'' example_state) = None"
    by (simp add: writeFromTemplate_def example_gen_def example_state_def flake_path
          overwriteFileIfChanged_def OpenFile_def Stat_def Perm_def ReadByte_def
          overwriteFile_def Truncate_def WriteAt_def touch_def resize_def write_bytes_def
          env_ok_def fs_one_def)
  then show ?thesis by (simp add: prod_eq_iff)
qed

lemma example_below:
  "not_found_below stat_denied ''/proj/.devbox/gen'' 2"
  "not_found_below stat_plain ''/proj/.devbox/gen'' 3"
  "not_found_below stat_repo ''/proj/.devbox/gen'' 2"
  by (simp_all add: not_found_below_def numeral_2_eq_2 numeral_3_eq_3 less_Suc_eq
        example_ancestors stat_denied_def stat_plain_def stat_repo_def is_ErrNotExist_def)

lemma example_walks:
  "(filepath_Dir ^^ 2) ''/proj/.devbox/gen'' = ''/proj''"
  "(filepath_Dir ^^ 3) ''/proj/.devbox/gen'' = ''/''"
  by (simp_all add: numeral_2_eq_2 numeral_3_eq_3 example_ancestors)

text \<open>
  Claim C4 as stated fails: when \<^verbatim>\<open>os.Stat\<close> on the marker of an ancestor fails with
  permission denied, which is not a not-found error, \<^verbatim>\<open>isProjectInGitRepo\<close> answers false
  and \<^verbatim>\<open>makeFlakeFile\<close> returns no error and runs no command: the error is treated as
  "not a repository", not propagated.
\<close>

theorem stat_error_is_not_propagated:
  "stat_denied (filepath_Join [''/proj'', ''.git'']) = Some EACCES
   \<and> \<not> is_ErrNotExist EACCES
   \<and> isProjectInGitRepo stat_denied ''/proj/.devbox/gen'' = Some False
   \<and> makeFlakeFile (example_gen stat_denied) ''/proj/.devbox/gen'' True example_state
       = Some (None,
               snd (writeFromTemplate (example_gen stat_denied) ''/proj/.devbox/gen/flake'' True
                      ''flake.nix'' ''flake.nix'' example_state),
               [])"
proof -
  have s: "stat_denied (filepath_Join [''/proj'', ''.git'']) = Some EACCES"
    by (simp add: example_ancestors stat_denied_def)
  have e: "\<not> is_ErrNotExist EACCES" by (simp add: is_ErrNotExist_def)
  have "isProjectInGitRepo stat_denied ''/proj/.devbox/gen'' = isProjectInGitRepo stat_denied ''/proj''"
    using walk_skip [OF example_below(1)] by (simp add: example_walks)
  also have "\<dots> = Some False"
    using walk_other_error [where stat = stat_denied and dir = "''/proj''" and err = EACCES] s e
    by simp
  finally have w: "isProjectInGitRepo stat_denied ''/proj/.devbox/gen'' = Some False" .
  have "makeFlakeFile (example_gen stat_denied) ''/proj/.devbox/gen'' True example_state
       = Some (None,
               snd (writeFromTemplate (example_gen stat_denied) ''/proj/.devbox/gen/flake'' True
                      ''flake.nix'' ''flake.nix'' example_state),
               [])"
    using example_render_ok [of stat_denied] w
    by (intro makeFlakeFile_not_in_repo) (simp_all add: example_gen_def)
  with s e w show ?thesis by blast
qed

text \<open>
  Claim C4, as amended. Let the flake file be written without error and let the walk
  find no marker in the first \<open>n\<close> directories. If the next directory is the root, the
  walk ends with false and \<^verbatim>\<open>makeFlakeFile\<close> is a no-op: no command is run, no error
  returned. If \<^verbatim>\<open>os.Stat\<close> fails there with an error other than not-found, the walk stops
  with the same answer, false: no command is run and no error is returned, the error
  of \<^verbatim>\<open>os.Stat\<close> is dropped. If the marker exists there, the walk ends with true.
\<close>

theorem stat_error_means_not_a_repo:
  assumes tmpl: "writeFromTemplate env (FlakePath env) plan
             (if RemoveNixpkgs_Enabled env then ''flake_remove_nixpkgs.nix'' else ''flake.nix'')
             ''flake.nix'' st = (None, st1)"
    and below: "not_found_below (os_Stat env) outPath n"
  shows "((filepath_Dir ^^ n) outPath = ''/'' \<longrightarrow>
            isProjectInGitRepo (os_Stat env) outPath = Some False
          \<and> makeFlakeFile env outPath plan st = Some (None, st1, []))
       \<and> ((filepath_Dir ^^ n) outPath \<noteq> ''/''
          \<and> os_Stat env (filepath_Join [(filepath_Dir ^^ n) outPath, ''.git'']) = Some err
          \<and> \<not> is_ErrNotExist err \<longrightarrow>
            isProjectInGitRepo (os_Stat env) outPath = Some False
          \<and> makeFlakeFile env outPath plan st = Some (None, st1, []))
       \<and> ((filepath_Dir ^^ n) outPath \<noteq> ''/''
          \<and> os_Stat env (filepath_Join [(filepath_Dir ^^ n) outPath, ''.git'']) = None \<longrightarrow>
            isProjectInGitRepo (os_Stat env) outPath = Some True)"
proof -
  note skip = walk_skip [OF below]
  have a: "isProjectInGitRepo (os_Stat env) outPath = Some False"
    if "(filepath_Dir ^^ n) outPath = ''/''"
    using skip that walk_root by simp
  have b: "isProjectInGitRepo (os_Stat env) outPath = Some False"
    if "(filepath_Dir ^^ n) outPath \<noteq> ''/''"
      "os_Stat env (filepath_Join [(filepath_Dir ^^ n) outPath, ''.git'']) = Some err"
      "\<not> is_ErrNotExist err"
    using skip walk_other_error [where stat = "os_Stat env" and dir = "(filepath_Dir ^^ n) outPath"
                                   and err = err] that
    by simp
  have c: "isProjectInGitRepo (os_Stat env) outPath = Some True"
    if "(filepath_Dir ^^ n) outPath \<noteq> ''/''"
      "os_Stat env (filepath_Join [(filepath_Dir ^^ n) outPath, ''.git'']) = None"
    using skip walk_found [where stat = "os_Stat env" and dir = "(filepath_Dir ^^ n) outPath"] that
    by simp
  from a b c makeFlakeFile_not_in_repo [OF tmpl] show ?thesis by blast
qed

theorem stat_error_means_not_a_repo_witness:
  "isProjectInGitRepo stat_denied ''/proj/.devbox/gen'' = Some False
   \<and> makeFlakeFile (example_gen stat_denied) ''/proj/.devbox/gen'' True example_state
       = Some (None,
               snd (writeFromTemplate (example_gen stat_denied) ''/proj/.devbox/gen/flake'' True
                      ''flake.nix'' ''flake.nix'' example_state),
               [])
   \<and> isProjectInGitRepo stat_plain ''/proj/.devbox/gen'' = Some False
   \<and> makeFlakeFile (example_gen stat_plain) ''/proj/.devbox/gen'' True example_state
       = Some (None,
               snd (writeFromTemplate (example_gen stat_plain) ''/proj/.devbox/gen/flake'' True
                      ''flake.nix'' ''flake.nix'' example_state),
               [])
   \<and> isProjectInGitRepo stat_repo ''/proj/.devbox/gen'' = Some True"
proof -
  have t: "writeFromTemplate (example_gen stat) (FlakePath (example_gen stat)) True
             (if RemoveNixpkgs_Enabled (example_gen stat) then ''flake_remove_nixpkgs.nix'' else ''flake.nix'')
             ''flake.nix'' example_state
           = (None, snd (writeFromTemplate (example_gen stat) ''/proj/.devbox/gen/flake'' True
                           ''flake.nix'' ''flake.nix'' example_state))" for stat
    using example_render_ok [of stat] by (simp add: example_gen_def)
  have b: "not_found_below (os_Stat (example_gen stat_denied)) ''/proj/.devbox/gen'' 2"
    "not_found_below (os_Stat (example_gen stat_plain)) ''/proj/.devbox/gen'' 3"
    "not_found_below (os_Stat (example_gen stat_repo)) ''/proj/.devbox/gen'' 2"
    using example_below by (simp_all add: example_gen_def)
  have s: "os_Stat (example_gen stat_denied) (filepath_Join [''/proj'', ''.git'']) = Some EACCES"
    "os_Stat (example_gen stat_repo) (filepath_Join [''/proj'', ''.git'']) = None"
    by (simp_all add: example_gen_def example_ancestors stat_denied_def stat_repo_def)
  have e: "\<not> is_ErrNotExist EACCES" by (simp add: is_ErrNotExist_def)
  have o: "os_Stat (example_gen stat) = stat" for stat by (simp add: example_gen_def)
  from stat_error_means_not_a_repo [OF t b(1), where err = EACCES] s(1) e
  have one: "isProjectInGitRepo stat_denied ''/proj/.devbox/gen'' = Some False
   \<and> makeFlakeFile (example_gen stat_denied) ''/proj/.devbox/gen'' True example_state
       = Some (None,
               snd (writeFromTemplate (example_gen stat_denied) ''/proj/.devbox/gen/flake'' True
                      ''flake.nix'' ''flake.nix'' example_state),
               [])"
    by (simp add: example_walks o)
  from stat_error_means_not_a_repo [OF t b(2)]
  have two: "isProjectInGitRepo stat_plain ''/proj/.devbox/gen'' = Some False
   \<and> makeFlakeFile (example_gen stat_plain) ''/proj/.devbox/gen'' True example_state
       = Some (None,
               snd (writeFromTemplate (example_gen stat_plain) ''/proj/.devbox/gen/flake'' True
                      ''flake.nix'' ''flake.nix'' example_state),
               [])"
    by (simp add: example_walks o)
  from stat_error_means_not_a_repo [OF t b(3)] s(2)
  have three: "isProjectInGitRepo stat_repo ''/proj/.devbox/gen'' = Some True"
    by (simp add: example_walks o)
  from one two three show ?thesis by blast
qed

subsection \<open>When the walk returns\<close>

text \<open>
  On a rooted path every step of \<^verbatim>\<open>filepath.Dir\<close> gives a shorter rooted path, so the walk
  of \<^verbatim>\<open>isProjectInGitRepo\<close> reaches the root and returns, whatever \<^verbatim>\<open>os.Stat\<close> answers.
\<close>

lemma splitSep_nonempty [simp]: "splitSep s \<noteq> []"
  by (induction s) (auto split: list.splits)

lemma weight_splitSep: "weight (splitSep s) = Suc (length s)"
  by (induction s) (auto simp: weight_def split: list.splits)

lemma solid_le_weight: "solid ks \<le> weight ks"
  by (induction ks) (auto simp: solid_def weight_def)

lemma splitSep_slash: "splitSep (CHR ''/'' # cs) = [] # splitSep cs"
  by simp

lemma last_splitSep: "s \<noteq> [] \<Longrightarrow> last s = CHR ''/'' \<Longrightarrow> last (splitSep s) = []"
proof (induction s)
  case Nil
  then show ?case by simp
next
  case (Cons c cs)
  show ?case
  proof (cases "cs = []")
    case True
    with Cons.prems show ?thesis by simp
  next
    case False
    with Cons have ih: "last (splitSep cs) = []" by simp
    obtain x xs where sp: "splitSep cs = x # xs" by (cases "splitSep cs") auto
    show ?thesis
    proof (cases "xs = []")
      case True
      with sp ih have "x = []" by simp
      with sp True have "splitSep cs = [[]]" by simp
      moreover have "cs \<noteq> [] \<Longrightarrow> splitSep cs \<noteq> [[]]"
        by (cases cs) (auto split: list.splits if_splits)
      ultimately show ?thesis using False by blast
    next
      case False
      with sp ih show ?thesis by auto
    qed
  qed
qed

lemma solid_last_empty: "ks \<noteq> [] \<Longrightarrow> last ks = [] \<Longrightarrow> Suc (solid ks) \<le> weight ks"
proof (induction ks)
  case Nil
  then show ?case by simp
next
  case (Cons k ks)
  show ?case
  proof (cases "ks = []")
    case True
    with Cons.prems show ?thesis by (simp add: solid_def weight_def)
  next
    case False
    with Cons have "Suc (solid ks) \<le> weight ks" by simp
    then show ?thesis by (simp add: solid_def weight_def)
  qed
qed

lemma weight_clean_step:
  "weight (clean_step r kept el) \<le> weight kept + (if el = [] then 0 else Suc (length el))"
  by (auto simp: clean_step_def weight_def split: list.splits)

lemma weight_foldl_clean_step:
  "weight (foldl (clean_step r) kept els) \<le> weight kept + solid els"
proof (induction els arbitrary: kept)
  case Nil
  show ?case by (simp add: solid_def)
next
  case (Cons el els)
  have "weight (foldl (clean_step r) (clean_step r kept el) els)
          \<le> weight (clean_step r kept el) + solid els"
    by (rule Cons.IH)
  also have "\<dots> \<le> (weight kept + (if el = [] then 0 else Suc (length el))) + solid els"
    using weight_clean_step [of r kept el] by simp
  also have "\<dots> = weight kept + solid (el # els)"
    by (simp add: solid_def)
  finally show ?case by simp
qed

lemma length_joinSep: "ks \<noteq> [] \<Longrightarrow> Suc (length (joinSep ks)) = weight ks"
  by (induction ks) (auto simp: weight_def)

lemma weight_rev [simp]: "weight (rev ks) = weight ks"
  by (simp add: weight_def rev_map [symmetric])

lemma length_Clean_rooted:
  assumes "take 1 s = ''/''"
  shows "take 1 (filepath_Clean s) = ''/''"
    and "length (filepath_Clean s) \<le> max 1 (solid (splitSep s))"
proof -
  let ?kept = "rev (foldl (clean_step True) [] (splitSep s))"
  have out: "filepath_Clean s = ''/'' @ joinSep ?kept"
    using assms by (simp add: filepath_Clean_def Let_def)
  then show "take 1 (filepath_Clean s) = ''/''" by simp
  have "weight [] = 0" by (simp add: weight_def)
  then have w: "weight ?kept \<le> solid (splitSep s)"
    using weight_foldl_clean_step [of True "[]" "splitSep s"] by simp
  show "length (filepath_Clean s) \<le> max 1 (solid (splitSep s))"
  proof (cases "?kept = []")
    case True
    with out show ?thesis by simp
  next
    case False
    from length_joinSep [OF False] out have "length (filepath_Clean s) = weight ?kept" by simp
    with w show ?thesis by simp
  qed
qed

lemma rooted_Cons: "take 1 s = ''/'' \<longleftrightarrow> (\<exists>cs. s = CHR ''/'' # cs)"
  by (cases s) auto

lemma solid_rooted:
  assumes "take 1 s = ''/''"
  shows "solid (splitSep s) \<le> length s"
    and "2 \<le> length s \<Longrightarrow> last s = CHR ''/'' \<Longrightarrow> Suc (solid (splitSep s)) \<le> length s"
proof -
  from assms [unfolded rooted_Cons] obtain cs where s: "s = CHR ''/'' # cs" by blast
  have eq: "solid (splitSep s) = solid (splitSep cs)" by (simp add: s solid_def)
  have len: "length s = weight (splitSep cs)" by (simp add: s weight_splitSep)
  show "solid (splitSep s) \<le> length s"
    unfolding eq len by (rule solid_le_weight)
  assume "2 \<le> length s" "last s = CHR ''/''"
  with s have "cs \<noteq> []" by auto
  with s \<open>last s = CHR ''/''\<close> have "last cs = CHR ''/''" by simp
  note \<open>cs \<noteq> []\<close> this
  then have "last (splitSep cs) = []" by (rule last_splitSep)
  then show "Suc (solid (splitSep s)) \<le> length s"
    unfolding eq len by (intro solid_last_empty) simp_all
qed

lemma Dir_rooted:
  assumes r: "take 1 p = ''/''" and ne: "p \<noteq> ''/''"
  shows "take 1 (filepath_Dir p) = ''/''" and "length (filepath_Dir p) < length p"
proof -
  let ?pre = "rev (dropWhile (\<lambda>c. c \<noteq> CHR ''/'') (rev p))"
  from r [unfolded rooted_Cons] obtain cs where p: "p = CHR ''/'' # cs" by blast
  have "CHR ''/'' \<in> set (rev p)" by (simp add: p)
  then have dw: "dropWhile (\<lambda>c. c \<noteq> CHR ''/'') (rev p) \<noteq> []"
    by (simp add: dropWhile_eq_Nil_conv)
  then have hd: "hd (dropWhile (\<lambda>c. c \<noteq> CHR ''/'') (rev p)) = CHR ''/''"
    using hd_dropWhile [of "\<lambda>c. c \<noteq> CHR ''/''" "rev p"] by simp
  have pre_ne: "?pre \<noteq> []" using dw by simp
  have last_pre: "last ?pre = CHR ''/''" using dw hd by (simp add: last_rev)
  have split: "rev p = takeWhile (\<lambda>c. c \<noteq> CHR ''/'') (rev p) @ dropWhile (\<lambda>c. c \<noteq> CHR ''/'') (rev p)"
    by simp
  have decomp: "p = ?pre @ rev (takeWhile (\<lambda>c. c \<noteq> CHR ''/'') (rev p))"
  proof -
    have "rev (rev p) = rev (takeWhile (\<lambda>c. c \<noteq> CHR ''/'') (rev p) @ dropWhile (\<lambda>c. c \<noteq> CHR ''/'') (rev p))"
      by simp
    then show ?thesis by (simp only: rev_rev_ident rev_append)
  qed
  have len_pre: "length ?pre \<le> length p"
    by (simp add: length_dropWhile_le [of _ "rev p", simplified])
  have hd_pre: "hd ?pre = CHR ''/''"
  proof -
    from decomp pre_ne have "hd p = hd ?pre" by (metis hd_append2)
    with p show ?thesis by simp
  qed
  with pre_ne have rooted_pre: "take 1 ?pre = ''/''"
    by (cases ?pre) auto
  show "take 1 (filepath_Dir p) = ''/''"
    unfolding filepath_Dir_def by (rule length_Clean_rooted(1) [OF rooted_pre])
  show "length (filepath_Dir p) < length p"
  proof (cases "2 \<le> length ?pre")
    case True
    from solid_rooted(2) [OF rooted_pre True last_pre]
    have "Suc (solid (splitSep ?pre)) \<le> length ?pre" .
    moreover from length_Clean_rooted(2) [OF rooted_pre]
    have "length (filepath_Dir p) \<le> max 1 (solid (splitSep ?pre))"
      by (simp add: filepath_Dir_def)
    ultimately show ?thesis using len_pre True by simp
  next
    case False
    with pre_ne have "length ?pre = 1"
      by (metis One_nat_def Suc_leI length_greater_0_conv not_less_eq_eq numeral_2_eq_2 order_antisym_conv)
    then obtain c where "?pre = [c]"
      by (metis One_nat_def length_0_conv length_Suc_conv)
    with hd_pre have pre: "?pre = ''/''" by simp
    have "filepath_Clean ''/'' = ''/''"
      by (simp add: filepath_Clean_def clean_step_def)
    then have d: "filepath_Dir p = ''/''" by (simp add: filepath_Dir_def pre)
    from ne p have "cs \<noteq> []" by auto
    then have "2 \<le> length p" by (cases cs) (simp_all add: p)
    with d show ?thesis by simp
  qed
qed

lemma walk_returns_on_rooted_path:
  "take 1 dir = ''/'' \<Longrightarrow> \<exists>b. isProjectInGitRepo stat dir = Some b"
proof (induction "length dir" arbitrary: dir rule: less_induct)
  case less
  show ?case
  proof (cases "dir = ''/''")
    case True
    then show ?thesis by (subst isProjectInGitRepo.simps) auto
  next
    case False
    from Dir_rooted [OF less.prems False]
    have "\<exists>b. isProjectInGitRepo stat (filepath_Dir dir) = Some b"
      by (intro less.hyps) simp_all
    then show ?thesis
      by (subst isProjectInGitRepo.simps) (auto split: option.splits)
  qed
qed

text \<open>
  On a relative path the walk arrives at \<^verbatim>\<open>.\<close>, whose directory is \<^verbatim>\<open>.\<close> again, and
  never at the root: when no marker is found the loop does not return.
\<close>

lemma dot_parent: "filepath_Dir ''.'' = ''.''" "filepath_Join [''.'', ''.git''] = ''.git''"
  "filepath_Dir ''proj'' = ''.''" "filepath_Join [''proj'', ''.git''] = ''proj/.git''"
  by (simp_all add: filepath_Dir_def filepath_Join_def filepath_Clean_def clean_step_def)

lemma walk_from_dot: "isProjectInGitRepo stat_plain ''.'' = None"
proof -
  have never: "\<not> (stat = stat_plain \<and> dir = ''.'')"
    if ret: "isProjectInGitRepo stat dir = Some b" for stat dir b
  proof (rule isProjectInGitRepo.raw_induct
           [where P = "\<lambda>stat dir b. \<not> (stat = stat_plain \<and> dir = ''.'')", OF _ ret])
    fix walk :: "(string \<Rightarrow> os_error option) \<Rightarrow> string \<Rightarrow> bool option"
      and stat' dir' b'
    assume ih: "\<And>stat dir b. walk stat dir = Some b \<Longrightarrow> \<not> (stat = stat_plain \<and> dir = ''.'')"
      and step: "(if dir' \<noteq> ''/''
           then case stat' (filepath_Join [dir', ''.git'']) of
                  None \<Rightarrow> Some True
                | Some err \<Rightarrow>
                    if \<not> is_ErrNotExist err then Some False else walk stat' (filepath_Dir dir')
           else Some False) = Some b'"
    show "\<not> (stat' = stat_plain \<and> dir' = ''.'')"
    proof
      assume eq: "stat' = stat_plain \<and> dir' = ''.''"
      with step have "walk stat_plain ''.'' = Some b'"
        by (simp add: dot_parent stat_plain_def is_ErrNotExist_def)
      from ih [OF this] show False by simp
    qed
  qed
  then have "isProjectInGitRepo stat_plain ''.'' \<noteq> Some b" for b by blast
  then show ?thesis by (cases "isProjectInGitRepo stat_plain ''.''") auto
qed

lemma relative_walk_does_not_return: "isProjectInGitRepo stat_plain ''proj'' = None"
proof -
  have "isProjectInGitRepo stat_plain ''proj'' = isProjectInGitRepo stat_plain ''.''"
    by (subst isProjectInGitRepo.simps) (simp add: dot_parent stat_plain_def is_ErrNotExist_def)
  then show ?thesis by (simp add: walk_from_dot)
qed

end
